theory Spec2Isabelle
  imports Complex_Main "HOL-Library.Sublist" "HOL-Library.Char_ord" "HOL-Library.List_Lexorder"
    "HOL-Library.Multiset"
begin

section \<open>Project dashboard: the request handlers of app.py\<close>

text \<open>
  The program is a handful of synchronous handlers over the operating system's file
  interface. The handlers are embedded as functions of an explicit record \<open>os\<close> holding
  the answers of the operating system and of the Python runtime (\<open>os.path.realpath\<close>,
  \<open>os.path.exists\<close>, \<open>os.listdir\<close>, \<open>os.stat\<close>, \<open>open\<close>, \<open>os.walk\<close>'s view of a tree).
  Every answer is arbitrary, so a theorem quantified over \<open>os\<close> covers every filesystem,
  symbolic links and entries that fail individually included.

  Python strings are HOL strings, compared character by character as Python compares code
  points; the characters are the 256 of HOL. The two API handlers return their response together with the list of operating
  system calls they made, in order. The handlers are the bodies that run once
  \<open>login_required\<close> has found a session.
\<close>

subsection \<open>Strings and paths (str methods, posixpath)\<close>

definition startswith :: "string \<Rightarrow> string \<Rightarrow> bool" where
  "startswith s p = prefix p s"

definition endswith :: "string \<Rightarrow> string \<Rightarrow> bool" where
  "endswith s p = suffix p s"

text \<open>\<open>p in s\<close> on strings: \<open>p\<close> occurs in \<open>s\<close> as a contiguous substring.\<close>

definition str_in :: "string \<Rightarrow> string \<Rightarrow> bool" where
  "str_in p s = sublist p s"

definition PROJECT_ROOT :: string where
  "PROJECT_ROOT = ''/home/dragon''"

text \<open>\<open>posixpath.join\<close> of two components.\<close>

definition path_join :: "string \<Rightarrow> string \<Rightarrow> string" where
  "path_join a b =
     (if startswith b ''/'' then b
      else if a = [] \<or> endswith a ''/'' then a @ b
      else a @ ''/'' @ b)"

text \<open>\<open>p.rfind('/') + 1\<close>: the index just after the last separator, 0 when there is none.\<close>

definition rfind_sep_plus1 :: "string \<Rightarrow> nat" where
  "rfind_sep_plus1 p = length p - length (takeWhile (\<lambda>c. c \<noteq> CHR ''/'') (rev p))"

definition rstrip_sep :: "string \<Rightarrow> string" where
  "rstrip_sep s = rev (dropWhile (\<lambda>c. c = CHR ''/'') (rev s))"

definition basename :: "string \<Rightarrow> string" where
  "basename p = drop (rfind_sep_plus1 p) p"

definition dirname :: "string \<Rightarrow> string" where
  "dirname p =
     (let head = take (rfind_sep_plus1 p) p
      in if head \<noteq> [] \<and> head \<noteq> replicate (length head) CHR ''/'' then rstrip_sep head
         else head)"

subsection \<open>JSON values and responses\<close>

datatype json =
    JNull
  | JInt int
  | JStr string
  | JList "json list"
  | JObj "(string \<times> json) list"

text \<open>A response is the body given to \<open>jsonify\<close> and the HTTP status.\<close>

type_synonym response = "json \<times> nat"

text \<open>\<open>item[k]\<close> on a dict.\<close>

fun item_get :: "json \<Rightarrow> string \<Rightarrow> json option" where
  "item_get (JObj kvs) k = map_of kvs k"
| "item_get _ k = None"

subsection \<open>The operating system and the runtime\<close>

text \<open>
  The exceptions the handlers tell apart, each with the text \<open>str(e)\<close> gives.
  \<open>OtherError\<close> is any other exception.
\<close>

datatype exn =
    PermissionError string
  | FileNotFoundError string
  | UnicodeDecodeError string
  | OtherError string

fun exn_str :: "exn \<Rightarrow> string" where
  "exn_str (PermissionError m) = m"
| "exn_str (FileNotFoundError m) = m"
| "exn_str (UnicodeDecodeError m) = m"
| "exn_str (OtherError m) = m"

record stat_result =
  st_size :: nat
  st_mtime :: rat

text \<open>
  What \<open>os.walk\<close> (top-down, not following links) sees below a directory it could scan:
  the names it classifies as directories, each with the tree below it, and the names it
  classifies as files. A directory name carries \<open>None\<close> when \<open>os.walk\<close> yields nothing
  for it: a symbolic link, or a directory whose scan fails (\<open>os.walk\<close> ignores the error).
\<close>

datatype wdir = WDir "(string \<times> wdir option) list" "string list"

record os =
  realpath :: "string \<Rightarrow> string"
  path_exists :: "string \<Rightarrow> bool"
  isdir :: "string \<Rightarrow> bool"
  isfile :: "string \<Rightarrow> bool"
  listdir :: "string \<Rightarrow> exn + string list"
  stat :: "string \<Rightarrow> exn + stat_result"
  getsize :: "string \<Rightarrow> exn + nat"
  getmtime :: "string \<Rightarrow> exn + rat"
  read_text :: "string \<Rightarrow> exn + string"
  walk_view :: "string \<Rightarrow> wdir option"
  strftime_local :: "string \<Rightarrow> rat \<Rightarrow> exn + string"

text \<open>
  \<open>read_text os p\<close> is \<open>open(p, 'r', encoding='utf-8')\<close> followed by \<open>f.read()\<close>;
  bytes that are not UTF-8 give \<open>UnicodeDecodeError\<close>.
  \<open>strftime_local os fmt t\<close> is \<open>datetime.fromtimestamp(t).strftime(fmt)\<close>.
\<close>

datatype call =
    Realpath string
  | Exists string
  | Isdir string
  | Isfile string
  | Listdir string
  | Stat string
  | Getsize string
  | OpenRead string

subsection \<open>api_browse\<close>

definition browse_hidden :: "string \<Rightarrow> bool" where
  "browse_hidden entry \<longleftrightarrow>
     startswith entry ''.'' \<or> entry \<in> set [''node_modules'', ''__pycache__'', ''venv'']"

text \<open>
  The loop over the sorted entries. \<open>items\<close> is the list built so far, \<open>tr\<close> the calls
  made so far. The inner \<open>try\<close> holds \<open>os.stat\<close>, \<open>os.path.isdir\<close> and the construction
  of the item: \<open>PermissionError\<close> and \<open>FileNotFoundError\<close> raised there skip the entry;
  any other exception leaves the loop.
\<close>

fun browse_loop ::
  "os \<Rightarrow> string \<Rightarrow> string \<Rightarrow> string list \<Rightarrow> json list \<Rightarrow> call list
     \<Rightarrow> (exn + json list) \<times> call list" where
  "browse_loop os target_path subpath [] items tr = (Inr items, tr)"
| "browse_loop os target_path subpath (entry # entries) items tr =
     (if browse_hidden entry then browse_loop os target_path subpath entries items tr
      else
        let full_path = path_join target_path entry;
            rel_path = (if subpath \<noteq> [] then path_join subpath entry else entry)
        in case stat os full_path of
             Inl (PermissionError m) \<Rightarrow>
               browse_loop os target_path subpath entries items (tr @ [Stat full_path])
           | Inl (FileNotFoundError m) \<Rightarrow>
               browse_loop os target_path subpath entries items (tr @ [Stat full_path])
           | Inl e \<Rightarrow> (Inl e, tr @ [Stat full_path])
           | Inr st \<Rightarrow>
               let is_dir = isdir os full_path;
                   tr' = tr @ [Stat full_path, Isdir full_path]
               in (case strftime_local os ''%Y-%m-%d %H:%M:%S'' (st_mtime st) of
                     Inl (PermissionError m) \<Rightarrow>
                       browse_loop os target_path subpath entries items tr'
                   | Inl (FileNotFoundError m) \<Rightarrow>
                       browse_loop os target_path subpath entries items tr'
                   | Inl e \<Rightarrow> (Inl e, tr')
                   | Inr modified \<Rightarrow>
                       browse_loop os target_path subpath entries
                         (items @ [JObj [
                            (''name'', JStr entry),
                            (''path'', JStr rel_path),
                            (''type'', JStr (if is_dir then ''directory'' else ''file'')),
                            (''size'', if \<not> is_dir then JInt (int (st_size st)) else JNull),
                            (''modified'', JStr modified)]])
                         tr'))"

definition error_response :: "string \<Rightarrow> nat \<Rightarrow> response" where
  "error_response msg status = (JObj [(''error'', JStr msg)], status)"

text \<open>The handlers' two outer \<open>except\<close> clauses.\<close>

fun handle_exn :: "exn \<Rightarrow> response" where
  "handle_exn (PermissionError m) = error_response ''Permission denied'' 403"
| "handle_exn e = error_response (exn_str e) 500"

text \<open>The \<open>try\<close> block of \<open>api_browse\<close> with its two \<open>except\<close> clauses.\<close>

definition browse_listing :: "os \<Rightarrow> string \<Rightarrow> string \<Rightarrow> call list \<Rightarrow> response \<times> call list" where
  "browse_listing os target_path subpath tr =
     (let tr2 = tr @ [Listdir target_path]
      in case listdir os target_path of
           Inl e \<Rightarrow> (handle_exn e, tr2)
         | Inr names \<Rightarrow>
             (case browse_loop os target_path subpath (sort names) [] tr2 of
                (Inl e, tr3) \<Rightarrow> (handle_exn e, tr3)
              | (Inr items, tr3) \<Rightarrow>
                  let directories =
                        filter (\<lambda>item. item_get item ''type'' = Some (JStr ''directory'')) items;
                      files =
                        filter (\<lambda>item. item_get item ''type'' = Some (JStr ''file'')) items
                  in ((JObj [
                         (''current_path'', JStr subpath),
                         (''items'', JList (directories @ files)),
                         (''parent_path'',
                            if subpath \<noteq> [] then JStr (dirname subpath) else JNull)],
                       200), tr3)))"

definition api_browse :: "os \<Rightarrow> string \<Rightarrow> response \<times> call list" where
  "api_browse os subpath =
     (if str_in ''..'' subpath \<or> startswith subpath ''/'' then
        (error_response ''Invalid path'' 400, [])
      else
        let target_path = (if subpath \<noteq> [] then path_join PROJECT_ROOT subpath else PROJECT_ROOT);
            real_target = realpath os target_path;
            real_root = realpath os PROJECT_ROOT;
            tr1 = [Realpath target_path, Realpath PROJECT_ROOT]
        in if \<not> startswith real_target real_root then
             (error_response ''Access denied'' 403, tr1)
           else if \<not> path_exists os target_path then
             (error_response ''Path not found'' 404, tr1 @ [Exists target_path])
           else if \<not> isdir os target_path then
             (error_response ''Not a directory'' 400,
              tr1 @ [Exists target_path, Isdir target_path])
           else
             browse_listing os target_path subpath
               (tr1 @ [Exists target_path, Isdir target_path]))"

subsection \<open>api_read_file\<close>

text \<open>
  \<open>file_size / 1024 / 1024\<close> formatted with \<open>:.2f\<close>. The first division gives the binary64
  number nearest to the quotient, which is the size rounded to 53 significant bits (ties
  to even) over 1024; the second division is exact. The format rounds the exact value of
  that number to hundredths, ties to even.
\<close>

fun bit_length :: "nat \<Rightarrow> nat" where
  "bit_length n = (if n = 0 then 0 else Suc (bit_length (n div 2)))"

definition round_half_even :: "nat \<Rightarrow> nat \<Rightarrow> nat" where
  "round_half_even a b =
     (let q = a div b; r = a mod b
      in if 2 * r > b \<or> (2 * r = b \<and> odd q) then q + 1 else q)"

definition round53 :: "nat \<Rightarrow> nat" where
  "round53 n =
     (if bit_length n \<le> 53 then n
      else let s = bit_length n - 53 in round_half_even n (2 ^ s) * 2 ^ s)"

definition hundredths_mib :: "nat \<Rightarrow> nat" where
  "hundredths_mib file_size = round_half_even (100 * round53 file_size) (2 ^ 20)"

text \<open>The decimal digit \<open>d\<close>, for \<open>d\<close> below 10.\<close>

definition digit_char :: "nat \<Rightarrow> char" where
  "digit_char d = ''0123456789'' ! d"

fun str_nat :: "nat \<Rightarrow> string" where
  "str_nat n = (if n < 10 then [digit_char n] else str_nat (n div 10) @ [digit_char (n mod 10)])"

declare bit_length.simps [simp del]

declare str_nat.simps [simp del]

definition format_2f :: "nat \<Rightarrow> string" where
  "format_2f h = str_nat (h div 100) @ ''.'' @ [digit_char (h mod 100 div 10), digit_char (h mod 10)]"

definition api_read_file :: "os \<Rightarrow> string \<Rightarrow> response \<times> call list" where
  "api_read_file os filepath =
     (if str_in ''..'' filepath \<or> startswith filepath ''/'' then
        (error_response ''Invalid path'' 400, [])
      else
        let target_path = path_join PROJECT_ROOT filepath;
            real_target = realpath os target_path;
            real_root = realpath os PROJECT_ROOT;
            tr1 = [Realpath target_path, Realpath PROJECT_ROOT]
        in if \<not> startswith real_target real_root then
             (error_response ''Access denied'' 403, tr1)
           else if \<not> path_exists os target_path then
             (error_response ''File not found'' 404, tr1 @ [Exists target_path])
           else if \<not> isfile os target_path then
             (error_response ''Not a file'' 400,
              tr1 @ [Exists target_path, Isfile target_path])
           else
             let tr2 = tr1 @ [Exists target_path, Isfile target_path, Getsize target_path]
             in case getsize os target_path of
                  Inl e \<Rightarrow> (handle_exn e, tr2)
                | Inr file_size \<Rightarrow>
                    if file_size > 1024 * 1024 then
                      ((JObj [
                          (''error'', JStr ''File too large''),
                          (''message'', JStr (''File size: '' @ format_2f (hundredths_mib file_size)
                                               @ ''MB. Maximum: 1MB''))],
                        413), tr2)
                    else
                      (case read_text os target_path of
                         Inr content \<Rightarrow>
                           ((JObj [
                               (''name'', JStr (basename filepath)),
                               (''path'', JStr filepath),
                               (''content'', JStr content),
                               (''size'', JInt (int file_size)),
                               (''type'', JStr ''text'')],
                             200), tr2 @ [OpenRead target_path])
                       | Inl (UnicodeDecodeError m) \<Rightarrow>
                           ((JObj [
                               (''error'', JStr ''Binary file''),
                               (''message'', JStr ''Cannot display binary files''),
                               (''name'', JStr (basename filepath)),
                               (''path'', JStr filepath),
                               (''size'', JInt (int file_size)),
                               (''type'', JStr ''binary'')],
                             415), tr2 @ [OpenRead target_path])
                       | Inl e \<Rightarrow> (handle_exn e, tr2 @ [OpenRead target_path])))"

subsection \<open>os.walk with pruning, count_files, get_last_modified\<close>

text \<open>
  The loop bodies of \<open>count_files\<close> and \<open>get_last_modified\<close> begin by replacing the
  list \<open>dirs\<close> in place with the names that pass this test; \<open>os.walk\<close> then descends
  into the names that are left.
\<close>

definition walk_keep :: "string \<Rightarrow> bool" where
  "walk_keep d \<longleftrightarrow>
     \<not> startswith d ''.'' \<and> d \<notin> set [''node_modules'', ''__pycache__'', ''venv'', ''.git'']"

text \<open>
  The triples \<open>(root, dirs, files)\<close> that \<open>os.walk\<close> yields, in order, when the loop body
  keeps in \<open>dirs\<close> the names that satisfy \<open>keep\<close>: the directory itself first, then the
  walk of each kept subdirectory.
\<close>

fun os_walk :: "(string \<Rightarrow> bool) \<Rightarrow> string \<Rightarrow> wdir \<Rightarrow> (string \<times> string list \<times> string list) list"
  and os_walk_dirs ::
    "(string \<Rightarrow> bool) \<Rightarrow> string \<Rightarrow> (string \<times> wdir option) list
       \<Rightarrow> (string \<times> string list \<times> string list) list" where
  "os_walk keep here (WDir dirs files) = (here, map fst dirs, files) # os_walk_dirs keep here dirs"
| "os_walk_dirs keep here [] = []"
| "os_walk_dirs keep here ((d, sub) # rest) =
     (if keep d then (case sub of None \<Rightarrow> [] | Some t \<Rightarrow> os_walk keep (path_join here d) t)
      else [])
     @ os_walk_dirs keep here rest"

definition count_files :: "os \<Rightarrow> string \<Rightarrow> nat" where
  "count_files os directory =
     (case walk_view os directory of
        None \<Rightarrow> 0
      | Some t \<Rightarrow>
          foldl (\<lambda>count (dirpath, dirs, files). count + length files) 0
            (os_walk walk_keep directory t))"

text \<open>The inner loop of \<open>get_last_modified\<close> over the files of one directory.\<close>

fun latest_of_files :: "os \<Rightarrow> string \<Rightarrow> string list \<Rightarrow> rat \<Rightarrow> exn + rat" where
  "latest_of_files os dirpath [] latest = Inr latest"
| "latest_of_files os dirpath (fname # files) latest =
     (let fpath = path_join dirpath fname
      in case getmtime os fpath of
           Inr mtime \<Rightarrow> latest_of_files os dirpath files (if mtime > latest then mtime else latest)
         | Inl (PermissionError m) \<Rightarrow> latest_of_files os dirpath files latest
         | Inl (FileNotFoundError m) \<Rightarrow> latest_of_files os dirpath files latest
         | Inl e \<Rightarrow> Inl e)"

fun latest_of_walk :: "os \<Rightarrow> (string \<times> string list \<times> string list) list \<Rightarrow> rat \<Rightarrow> exn + rat" where
  "latest_of_walk os [] latest = Inr latest"
| "latest_of_walk os ((dirpath, dirs, files) # rest) latest =
     (case latest_of_files os dirpath files latest of
        Inl e \<Rightarrow> Inl e
      | Inr latest' \<Rightarrow> latest_of_walk os rest latest')"

definition get_last_modified :: "os \<Rightarrow> string \<Rightarrow> string" where
  "get_last_modified os directory =
     (case walk_view os directory of
        None \<Rightarrow> ''Unknown''
      | Some t \<Rightarrow>
          (case latest_of_walk os (os_walk walk_keep directory t) 0 of
             Inl e \<Rightarrow> ''Unknown''
           | Inr latest \<Rightarrow>
               if latest > 0 then
                 (case strftime_local os ''%Y-%m-%d %H:%M'' latest of
                    Inl e \<Rightarrow> ''Unknown''
                  | Inr s \<Rightarrow> s)
               else ''Unknown''))"

subsection \<open>get_projects\<close>

definition get_project_status :: "os \<Rightarrow> string \<Rightarrow> string" where
  "get_project_status os directory =
     (let git_dir = path_join directory ''.git''
      in if path_exists os git_dir then ''active'' else ''active'')"

text \<open>The two dicts, in insertion order, which is the order \<open>.items()\<close> iterates in.\<close>

definition main_projects :: "(string \<times> string) list" where
  "main_projects = [
     (''threat-intel-aggregator'', ''Threat Intelligence Aggregator with Discord integration''),
     (''trading'', ''Freqtrade Trading Bot and Strategies''),
     (''fishtracker'', ''Fish Tracking Application''),
     (''sectop'', ''Security Operations Tools'')]"

definition tooling_areas :: "(string \<times> string) list" where
  "tooling_areas = [
     (''claude-git-control'', ''Claude Git Workflows and Templates''),
     (''claude-backups'', ''Claude Session Backups''),
     (''project-dashboard'', ''Project Dashboard (This App)'')]"

definition get_projects :: "os \<Rightarrow> json list" where
  "get_projects os =
     (let projects = [];
          projects =
            foldl (\<lambda>projects (dir_name, description).
                     let dir_path = path_join PROJECT_ROOT dir_name
                     in if path_exists os dir_path then
                          projects @ [JObj [
                            (''name'', JStr dir_name),
                            (''description'', JStr description),
                            (''type'', JStr ''project''),
                            (''path'', JStr dir_name),
                            (''files_count'', JInt (int (count_files os dir_path))),
                            (''last_modified'', JStr (get_last_modified os dir_path)),
                            (''status'', JStr (get_project_status os dir_path))]]
                        else projects)
                  projects main_projects;
          projects =
            foldl (\<lambda>projects (dir_name, description).
                     let dir_path = path_join PROJECT_ROOT dir_name
                     in if path_exists os dir_path then
                          projects @ [JObj [
                            (''name'', JStr dir_name),
                            (''description'', JStr description),
                            (''type'', JStr ''tooling''),
                            (''path'', JStr dir_name),
                            (''files_count'', JInt (int (count_files os dir_path))),
                            (''last_modified'', JStr (get_last_modified os dir_path)),
                            (''status'', JStr ''active'')]]
                        else projects)
                  projects tooling_areas
      in projects)"

subsection \<open>Path segments\<close>

text \<open>
  The segments of a path are the pieces between separators, as \<open>p.split('/')\<close> gives
  them. A parent-directory segment is a segment equal to \<open>..\<close>.
\<close>

fun path_segments :: "string \<Rightarrow> string list" where
  "path_segments [] = [[]]"
| "path_segments (c # cs) =
     (if c = CHR ''/'' then [] # path_segments cs
      else (case path_segments cs of [] \<Rightarrow> [[c]] | w # ws \<Rightarrow> (c # w) # ws))"

subsection \<open>Concrete filesystems\<close>

text \<open>
  An empty machine: no path exists, every call on a path fails, and every timestamp is
  printed as noon of 1 May 2024.
\<close>

definition os_none :: os where
  "os_none = \<lparr>
     realpath = (\<lambda>p. p),
     path_exists = (\<lambda>p. False),
     isdir = (\<lambda>p. False),
     isfile = (\<lambda>p. False),
     listdir = (\<lambda>p. Inl (FileNotFoundError p)),
     stat = (\<lambda>p. Inl (FileNotFoundError p)),
     getsize = (\<lambda>p. Inl (FileNotFoundError p)),
     getmtime = (\<lambda>p. Inl (FileNotFoundError p)),
     read_text = (\<lambda>p. Inl (FileNotFoundError p)),
     walk_view = (\<lambda>p. None),
     strftime_local = (\<lambda>fmt t. Inr (if fmt = ''%Y-%m-%d %H:%M:%S'' then ''2024-05-01 12:00:00''
                                      else ''2024-05-01 12:00'')) \<rparr>"

text \<open>
  A machine whose root directory holds four regular files, \<open>big.bin\<close> of 2 MiB,
  \<open>blob.bin\<close> of four bytes, \<open>notes.txt\<close> holding \<open>hello\<close> and \<open>huge.img\<close> of
  4,611,686,018,427,414,118 bytes, and the directory \<open>sub\<close> with the file \<open>raw.bin\<close> of
  four bytes. Only \<open>notes.txt\<close> is UTF-8.
\<close>

definition os_files :: os where
  "os_files = os_none \<lparr>
     path_exists := (\<lambda>p. p \<in> set [''/home/dragon'', ''/home/dragon/big.bin'',
                                   ''/home/dragon/blob.bin'', ''/home/dragon/notes.txt'',
                                   ''/home/dragon/huge.img'', ''/home/dragon/sub'',
                                   ''/home/dragon/sub/raw.bin'']),
     isdir := (\<lambda>p. p \<in> set [''/home/dragon'', ''/home/dragon/sub'']),
     isfile := (\<lambda>p. p \<in> set [''/home/dragon/big.bin'', ''/home/dragon/blob.bin'',
                              ''/home/dragon/notes.txt'', ''/home/dragon/huge.img'',
                              ''/home/dragon/sub/raw.bin'']),
     getsize := (\<lambda>p. if p = ''/home/dragon/big.bin'' then Inr 2097152
                      else if p = ''/home/dragon/blob.bin'' then Inr 4
                      else if p = ''/home/dragon/notes.txt'' then Inr 5
                      else if p = ''/home/dragon/huge.img'' then Inr 4611686018427414118
                      else if p = ''/home/dragon/sub/raw.bin'' then Inr 4
                      else Inl (FileNotFoundError p)),
     read_text := (\<lambda>p. if p = ''/home/dragon/notes.txt'' then Inr ''hello''
                        else if p \<in> set [''/home/dragon/big.bin'', ''/home/dragon/blob.bin'',
                                         ''/home/dragon/huge.img'', ''/home/dragon/sub/raw.bin'']
                          then Inl (UnicodeDecodeError ''invalid start byte'')
                        else Inl (FileNotFoundError p)) \<rparr>"

text \<open>
  A machine whose root directory holds the directory \<open>d\<close>, which \<open>os.listdir\<close> reports
  as \<open>zeta.txt\<close>, \<open>Alpha\<close>, \<open>beta.txt\<close>, in that order; \<open>Alpha\<close> is a directory.
\<close>

definition os_listing :: os where
  "os_listing = os_none \<lparr>
     path_exists := (\<lambda>p. p \<in> set [''/home/dragon'', ''/home/dragon/d'', ''/home/dragon/d/zeta.txt'',
                                   ''/home/dragon/d/Alpha'', ''/home/dragon/d/beta.txt'']),
     isdir := (\<lambda>p. p \<in> set [''/home/dragon'', ''/home/dragon/d'', ''/home/dragon/d/Alpha'']),
     isfile := (\<lambda>p. p \<in> set [''/home/dragon/d/zeta.txt'', ''/home/dragon/d/beta.txt'']),
     listdir := (\<lambda>p. if p = ''/home/dragon/d'' then Inr [''zeta.txt'', ''Alpha'', ''beta.txt'']
                      else if p = ''/home/dragon'' then Inr [''d'']
                      else if p = ''/home/dragon/d/Alpha'' then Inr []
                      else Inl (FileNotFoundError p)),
     stat := (\<lambda>p. if p = ''/home/dragon/d/zeta.txt'' then Inr \<lparr>st_size = 26, st_mtime = 1714564800\<rparr>
                   else if p = ''/home/dragon/d/beta.txt'' then Inr \<lparr>st_size = 2, st_mtime = 1714564800\<rparr>
                   else if p \<in> set [''/home/dragon'', ''/home/dragon/d'', ''/home/dragon/d/Alpha'']
                     then Inr \<lparr>st_size = 4096, st_mtime = 1714564800\<rparr>
                   else Inl (FileNotFoundError p)) \<rparr>"

text \<open>
  A machine on which \<open>/home/dragon/link\<close> is a symbolic link to the directory
  \<open>/home/dragonX\<close>, which lies beside the root and holds the file \<open>secret.txt\<close>.
\<close>

definition os_sibling :: os where
  "os_sibling = os_none \<lparr>
     realpath := (\<lambda>p. if p = ''/home/dragon/link'' then ''/home/dragonX''
                       else if p = ''/home/dragon/link/secret.txt'' then ''/home/dragonX/secret.txt''
                       else p),
     path_exists := (\<lambda>p. p \<in> set [''/home/dragon'', ''/home/dragon/link'',
                                   ''/home/dragon/link/secret.txt'',
                                   ''/home/dragonX'', ''/home/dragonX/secret.txt'']),
     isdir := (\<lambda>p. p \<in> set [''/home/dragon'', ''/home/dragon/link'', ''/home/dragonX'']),
     isfile := (\<lambda>p. p \<in> set [''/home/dragon/link/secret.txt'', ''/home/dragonX/secret.txt'']),
     listdir := (\<lambda>p. if p = ''/home/dragon'' then Inr [''link'']
                      else if p \<in> set [''/home/dragon/link'', ''/home/dragonX''] then Inr [''secret.txt'']
                      else Inl (FileNotFoundError p)),
     stat := (\<lambda>p. if p \<in> set [''/home/dragon/link/secret.txt'', ''/home/dragonX/secret.txt'']
                     then Inr \<lparr>st_size = 6, st_mtime = 1714564800\<rparr>
                   else if p \<in> set [''/home/dragon'', ''/home/dragon/link'', ''/home/dragonX'']
                     then Inr \<lparr>st_size = 4096, st_mtime = 1714564800\<rparr>
                   else Inl (FileNotFoundError p)),
     getsize := (\<lambda>p. if p \<in> set [''/home/dragon/link/secret.txt'', ''/home/dragonX/secret.txt'']
                        then Inr 6
                      else Inl (FileNotFoundError p)),
     read_text := (\<lambda>p. if p \<in> set [''/home/dragon/link/secret.txt'', ''/home/dragonX/secret.txt'']
                          then Inr ''secret''
                        else Inl (FileNotFoundError p)) \<rparr>"

text \<open>
  A machine whose root directory holds two of the configured directories: \<open>trading\<close>, with
  \<open>.git/HEAD\<close>, \<open>.git/config\<close>, \<open>a.txt\<close> and \<open>sub/b.txt\<close>, and \<open>project-dashboard\<close>,
  with the single file \<open>.env\<close>.
\<close>

definition os_proj :: os where
  "os_proj = os_none \<lparr>
     path_exists := (\<lambda>p. p \<in> set [''/home/dragon'', ''/home/dragon/trading'',
        ''/home/dragon/trading/.git'', ''/home/dragon/trading/.git/HEAD'',
        ''/home/dragon/trading/.git/config'', ''/home/dragon/trading/a.txt'',
        ''/home/dragon/trading/sub'', ''/home/dragon/trading/sub/b.txt'',
        ''/home/dragon/project-dashboard'', ''/home/dragon/project-dashboard/.env'']),
     isdir := (\<lambda>p. p \<in> set [''/home/dragon'', ''/home/dragon/trading'',
        ''/home/dragon/trading/.git'', ''/home/dragon/trading/sub'',
        ''/home/dragon/project-dashboard'']),
     isfile := (\<lambda>p. p \<in> set [''/home/dragon/trading/.git/HEAD'',
        ''/home/dragon/trading/.git/config'', ''/home/dragon/trading/a.txt'',
        ''/home/dragon/trading/sub/b.txt'', ''/home/dragon/project-dashboard/.env'']),
     listdir := (\<lambda>p. if p = ''/home/dragon'' then Inr [''trading'', ''project-dashboard'']
                      else if p = ''/home/dragon/trading'' then Inr [''.git'', ''a.txt'', ''sub'']
                      else if p = ''/home/dragon/trading/.git'' then Inr [''HEAD'', ''config'']
                      else if p = ''/home/dragon/trading/sub'' then Inr [''b.txt'']
                      else if p = ''/home/dragon/project-dashboard'' then Inr [''.env'']
                      else Inl (FileNotFoundError p)),
     stat := (\<lambda>p. if p \<in> set [''/home/dragon'', ''/home/dragon/trading'',
                        ''/home/dragon/trading/.git'', ''/home/dragon/trading/.git/HEAD'',
                        ''/home/dragon/trading/.git/config'', ''/home/dragon/trading/a.txt'',
                        ''/home/dragon/trading/sub'', ''/home/dragon/trading/sub/b.txt'',
                        ''/home/dragon/project-dashboard'', ''/home/dragon/project-dashboard/.env'']
                     then Inr \<lparr>st_size = 12, st_mtime = 1714564800\<rparr>
                   else Inl (FileNotFoundError p)),
     getmtime := (\<lambda>p. if p \<in> set [''/home/dragon/trading/.git/HEAD'',
                          ''/home/dragon/trading/.git/config'', ''/home/dragon/trading/a.txt'',
                          ''/home/dragon/trading/sub/b.txt'', ''/home/dragon/project-dashboard/.env'']
                         then Inr 1714564800
                       else Inl (FileNotFoundError p)),
     walk_view := (\<lambda>p. if p = ''/home/dragon/trading'' then
                           Some (WDir [(''.git'', Some (WDir [] [''HEAD'', ''config''])),
                                       (''sub'', Some (WDir [] [''b.txt'']))]
                                      [''a.txt''])
                        else if p = ''/home/dragon/project-dashboard'' then
                           Some (WDir [] [''.env''])
                        else None) \<rparr>"

subsection \<open>Excluded directories and the files of a tree, as the specification words them\<close>

text \<open>
  A directory name is excluded when it starts with a dot or is one of the four noise
  names.
\<close>

definition excluded_dir :: "string \<Rightarrow> bool" where
  "excluded_dir d \<longleftrightarrow>
     startswith d ''.'' \<or> d \<in> set [''node_modules'', ''__pycache__'', ''venv'', ''.git'']"

text \<open>
  Every file of a tree, with the names of the directories that lead to it from the top of
  the tree (\<open>anc\<close> holds the names passed so far). No name is left out.
\<close>

fun files_below :: "string list \<Rightarrow> wdir \<Rightarrow> (string list \<times> string) list"
  and files_below_dirs :: "string list \<Rightarrow> (string \<times> wdir option) list \<Rightarrow> (string list \<times> string) list" where
  "files_below anc (WDir dirs files) = map (\<lambda>f. (anc, f)) files @ files_below_dirs anc dirs"
| "files_below_dirs anc [] = []"
| "files_below_dirs anc ((d, sub) # rest) =
     (case sub of None \<Rightarrow> [] | Some t \<Rightarrow> files_below (anc @ [d]) t) @ files_below_dirs anc rest"

text \<open>
  Every directory of a tree that \<open>os.walk\<close> could scan, in the order of a top-down walk
  that prunes nothing: the names that lead to it from the top of the tree, the names of
  its subdirectories and the names of its files.
\<close>

fun nodes_below :: "string list \<Rightarrow> wdir \<Rightarrow> (string list \<times> string list \<times> string list) list"
  and nodes_below_dirs ::
    "string list \<Rightarrow> (string \<times> wdir option) list \<Rightarrow> (string list \<times> string list \<times> string list) list" where
  "nodes_below anc (WDir dirs files) = (anc, map fst dirs, files) # nodes_below_dirs anc dirs"
| "nodes_below_dirs anc [] = []"
| "nodes_below_dirs anc ((d, sub) # rest) =
     (case sub of None \<Rightarrow> [] | Some t \<Rightarrow> nodes_below (anc @ [d]) t) @ nodes_below_dirs anc rest"

subsection \<open>Sizes in mebibytes to two decimals, as the specification words them\<close>

text \<open>
  The number of hundredths \<open>h\<close> is the size in mebibytes rounded to two decimals: it is
  within half a hundredth of the size over \<open>2^20\<close>.
\<close>

definition nearest_hundredths :: "nat \<Rightarrow> nat \<Rightarrow> bool" where
  "nearest_hundredths file_size h \<longleftrightarrow> 2 * \<bar>int h * 2 ^ 20 - 100 * int file_size\<bar> \<le> 2 ^ 20"

text \<open>
  The number of hundredths a decimal numeral with exactly two digits after the point
  denotes; \<open>None\<close> for any other string.
\<close>

definition digit_val :: "char \<Rightarrow> nat option" where
  "digit_val c = map_of (zip ''0123456789'' [0, 1, 2, 3, 4, 5, 6, 7, 8, 9]) c"

fun digits_val :: "string \<Rightarrow> nat \<Rightarrow> nat option" where
  "digits_val [] acc = Some acc"
| "digits_val (c # cs) acc =
     (case digit_val c of None \<Rightarrow> None | Some d \<Rightarrow> digits_val cs (10 * acc + d))"

definition parse_2f :: "string \<Rightarrow> nat option" where
  "parse_2f s =
     (let ip = takeWhile (\<lambda>c. c \<noteq> CHR ''.'') s;
          fp = drop (length ip + 1) s
      in if ip = [] \<or> length s \<le> length ip \<or> length fp \<noteq> 2 then None
         else case (digits_val ip 0, digits_val fp 0) of
                (Some a, Some b) \<Rightarrow> Some (100 * a + b)
              | _ \<Rightarrow> None)"

subsection \<open>Containment and listings, as the specification words them\<close>

text \<open>
  A canonical path is under the canonical root when it is the root itself or continues
  it with a separator: the prefix ends on a path-separator boundary.
\<close>

definition under_root :: "string \<Rightarrow> string \<Rightarrow> bool" where
  "under_root real_root real_target \<longleftrightarrow>
     real_target = real_root \<or> startswith real_target (real_root @ ''/'')"

text \<open>The name of a listing entry, and the entries of a response body.\<close>

definition item_name :: "json \<Rightarrow> string" where
  "item_name item = (case item_get item ''name'' of Some (JStr n) \<Rightarrow> n | _ \<Rightarrow> [])"

definition body_items :: "json \<Rightarrow> json list" where
  "body_items body = (case item_get body ''items'' of Some (JList its) \<Rightarrow> its | _ \<Rightarrow> [])"

text \<open>
  An entry of \<open>target_path\<close> that the loop of \<open>api_browse\<close> turns into an item: it is
  not filtered out, \<open>os.stat\<close> answers for it and its timestamp can be printed.
\<close>

definition listed :: "os \<Rightarrow> string \<Rightarrow> string \<Rightarrow> bool" where
  "listed os target_path entry \<longleftrightarrow>
     \<not> browse_hidden entry \<and>
     (\<exists>st modified. stat os (path_join target_path entry) = Inr st \<and>
        strftime_local os ''%Y-%m-%d %H:%M:%S'' (st_mtime st) = Inr modified)"

text \<open>
  Two answers of \<open>os.listdir\<close> report the same directory contents: the same error, or the
  same names, in any order.
\<close>

definition same_listing :: "exn + string list \<Rightarrow> exn + string list \<Rightarrow> bool" where
  "same_listing a b =
     (case (a, b) of
        (Inr xs, Inr ys) \<Rightarrow> mset xs = mset ys
      | (Inl e, Inl e') \<Rightarrow> e = e'
      | _ \<Rightarrow> False)"

text \<open>The machine \<open>os_listing\<close> with the entries of \<open>d\<close> reported in another order.\<close>

definition os_listing_reordered :: os where
  "os_listing_reordered = os_listing \<lparr>
     listdir := (\<lambda>p. if p = ''/home/dragon/d'' then Inr [''beta.txt'', ''zeta.txt'', ''Alpha'']
                      else listdir os_listing p) \<rparr>"

subsection \<open>Requests that reach the file\<close>

text \<open>
  The request for \<open>filepath\<close> passes the four tests that precede the \<open>try\<close> block of
  \<open>api_read_file\<close>: the pre-filter, the prefix test on the canonical paths, existence, and
  being a regular file.
\<close>

definition served_file :: "os \<Rightarrow> string \<Rightarrow> bool" where
  "served_file os filepath \<longleftrightarrow>
     \<not> str_in ''..'' filepath \<and> \<not> startswith filepath ''/'' \<and>
     startswith (realpath os (path_join PROJECT_ROOT filepath)) (realpath os PROJECT_ROOT) \<and>
     path_exists os (path_join PROJECT_ROOT filepath) \<and>
     isfile os (path_join PROJECT_ROOT filepath)"

section \<open>The syntactic pre-filter\<close>

lemma path_segments_nonempty: "path_segments p \<noteq> []"
  by (induction p) (auto split: list.splits)

lemma hd_segment_prefix: "prefix (hd (path_segments p)) p"
  by (induction p) (auto split: list.splits)

lemma segment_is_substring: "w \<in> set (path_segments p) \<Longrightarrow> sublist w p"
proof (induction p arbitrary: w)
  case Nil
  then show ?case by simp
next
  case (Cons c cs)
  show ?case
  proof (cases "c = CHR ''/''")
    case True
    with Cons.prems have "w = [] \<or> w \<in> set (path_segments cs)" by simp
    then show ?thesis using Cons.IH by (auto simp: sublist_Cons_right)
  next
    case False
    obtain v vs where vs: "path_segments cs = v # vs"
      using path_segments_nonempty by (cases "path_segments cs") auto
    with False Cons.prems have "w = c # v \<or> w \<in> set vs" by simp
    then show ?thesis
    proof
      assume "w = c # v"
      moreover have "prefix v cs" using hd_segment_prefix [of cs] vs by simp
      ultimately show ?thesis by (simp add: sublist_Cons_right)
    next
      assume "w \<in> set vs"
      then have "sublist w cs" using Cons.IH vs by simp
      then show ?thesis by (simp add: sublist_Cons_right)
    qed
  qed
qed

lemma prefilter_browse:
  "str_in ''..'' p \<or> startswith p ''/'' \<Longrightarrow>
     api_browse os p = (error_response ''Invalid path'' 400, [])"
  by (simp add: api_browse_def)

lemma prefilter_read_file:
  "str_in ''..'' p \<or> startswith p ''/'' \<Longrightarrow>
     api_read_file os p = (error_response ''Invalid path'' 400, [])"
  by (simp add: api_read_file_def)

text \<open>
  Every other request makes at least one call: the list of calls is empty only for the
  paths the pre-filter rejects.
\<close>

lemma browse_loop_calls_extend:
  "prefix tr (snd (browse_loop os t s entries items tr))"
proof (induction entries arbitrary: items tr s)
  case Nil
  show ?case by simp
next
  case (Cons e es)
  have step: "prefix tr (snd (browse_loop os t s' es its (tr @ xs)))" for its xs s'
    using Cons.IH [of "tr @ xs" s' its] by (rule append_prefixD)
  show ?case
    by (auto simp: Let_def Cons.IH step split: sum.splits exn.splits)
qed

lemma browse_listing_calls_nonempty: "snd (browse_listing os t s tr) \<noteq> []"
proof -
  have ne: "browse_loop os t s' es [] (tr @ [Listdir t]) \<noteq> (r, [])" for s' es r
  proof
    assume "browse_loop os t s' es [] (tr @ [Listdir t]) = (r, [])"
    then have "prefix (tr @ [Listdir t]) []"
      using browse_loop_calls_extend [of "tr @ [Listdir t]" os t s' es "[]"] by simp
    then show False by simp
  qed
  show ?thesis
    by (auto simp: browse_listing_def Let_def ne split: sum.splits prod.splits)
qed

lemma api_browse_calls_empty_iff:
  "snd (api_browse os p) = [] \<longleftrightarrow> str_in ''..'' p \<or> startswith p ''/''"
  by (simp add: api_browse_def Let_def browse_listing_calls_nonempty)

lemma api_read_file_calls_empty_iff:
  "snd (api_read_file os p) = [] \<longleftrightarrow> str_in ''..'' p \<or> startswith p ''/''"
  by (simp add: api_read_file_def Let_def split: sum.splits exn.splits)

text \<open>
  C2. A relative path with a \<open>..\<close> segment, or one that begins with the separator, is
  answered by both handlers with status 400 and error "Invalid path", and the list of
  operating system calls made is empty: nothing is canonicalised, tested, listed or read.
\<close>

theorem prefilter_rejects_without_os_call:
  "''..'' \<in> set (path_segments p) \<or> startswith p ''/'' \<Longrightarrow>
     api_browse os p = (error_response ''Invalid path'' 400, []) \<and>
     api_read_file os p = (error_response ''Invalid path'' 400, [])"
proof -
  assume "''..'' \<in> set (path_segments p) \<or> startswith p ''/''"
  then have "str_in ''..'' p \<or> startswith p ''/''"
    using segment_is_substring [of "''..''" p] by (auto simp: str_in_def)
  then show ?thesis
    by (simp add: prefilter_browse prefilter_read_file)
qed

theorem prefilter_rejects_without_os_call_witness:
  "(''..'' \<in> set (path_segments ''../../etc/passwd'') \<or> startswith ''../../etc/passwd'' ''/'') \<and>
   api_browse os_none ''../../etc/passwd'' = ((JObj [(''error'', JStr ''Invalid path'')], 400), []) \<and>
   api_read_file os_none ''../../etc/passwd'' = ((JObj [(''error'', JStr ''Invalid path'')], 400), [])"
proof -
  have h: "''..'' \<in> set (path_segments ''../../etc/passwd'') \<or> startswith ''../../etc/passwd'' ''/''"
    by simp
  show ?thesis
    using h prefilter_rejects_without_os_call [OF h, of os_none]
    by (simp add: error_response_def)
qed

text \<open>
  C9. The pre-filter of both handlers rejects every path in which the two characters
  \<open>..\<close> occur anywhere, with status 400 and error "Invalid path", whatever the
  filesystem holds. The names \<open>notes..txt\<close> and \<open>a..b/file\<close> have no \<open>..\<close> segment,
  join to a path below the root directory, and are rejected.
\<close>

theorem prefilter_rejects_dotdot_substring:
  "(str_in ''..'' p \<longrightarrow>
      fst (api_browse os p) = (JObj [(''error'', JStr ''Invalid path'')], 400) \<and>
      fst (api_read_file os p) = (JObj [(''error'', JStr ''Invalid path'')], 400)) \<and>
   ''..'' \<notin> set (path_segments ''notes..txt'') \<and>
   startswith (path_join PROJECT_ROOT ''notes..txt'') (PROJECT_ROOT @ ''/'') \<and>
   fst (api_browse os ''notes..txt'') = (JObj [(''error'', JStr ''Invalid path'')], 400) \<and>
   fst (api_read_file os ''notes..txt'') = (JObj [(''error'', JStr ''Invalid path'')], 400) \<and>
   ''..'' \<notin> set (path_segments ''a..b/file'') \<and>
   startswith (path_join PROJECT_ROOT ''a..b/file'') (PROJECT_ROOT @ ''/'') \<and>
   fst (api_browse os ''a..b/file'') = (JObj [(''error'', JStr ''Invalid path'')], 400) \<and>
   fst (api_read_file os ''a..b/file'') = (JObj [(''error'', JStr ''Invalid path'')], 400)"
proof -
  have a: "str_in ''..'' ''notes..txt''" and b: "str_in ''..'' ''a..b/file''"
    by (simp_all add: str_in_def sublist_Cons_right)
  have c: "startswith (path_join PROJECT_ROOT ''notes..txt'') (PROJECT_ROOT @ ''/'')"
    and d: "startswith (path_join PROJECT_ROOT ''a..b/file'') (PROJECT_ROOT @ ''/'')"
    by (simp_all add: startswith_def endswith_def path_join_def PROJECT_ROOT_def suffix_to_prefix)
  show ?thesis
    using c d
    by (simp add: prefilter_browse prefilter_read_file a b error_response_def)
qed

theorem prefilter_rejects_dotdot_substring_witness:
  "str_in ''..'' ''x..y'' \<and>
   fst (api_browse os_none ''x..y'') = (JObj [(''error'', JStr ''Invalid path'')], 400) \<and>
   fst (api_read_file os_none ''x..y'') = (JObj [(''error'', JStr ''Invalid path'')], 400)"
proof -
  have h: "str_in ''..'' ''x..y''"
    by (simp add: str_in_def sublist_Cons_right)
  show ?thesis
    using h prefilter_rejects_dotdot_substring [of "''x..y''" os_none]
    by simp
qed

section \<open>Reading a file: the size ceiling and undecodable bytes\<close>

lemma round_half_even_error:
  "0 < b \<Longrightarrow> 2 * \<bar>int (round_half_even a b) * int b - int a\<bar> \<le> int b"
proof -
  assume b: "0 < b"
  define q r where "q = a div b" and "r = a mod b"
  have a: "int a = int q * int b + int r"
    unfolding q_def r_def by (metis div_mult_mod_eq of_nat_add of_nat_mult)
  have r: "r < b" unfolding r_def using b by simp
  show ?thesis
  proof (cases "2 * r > b \<or> (2 * r = b \<and> odd q)")
    case True
    then have "round_half_even a b = q + 1"
      by (simp add: round_half_even_def Let_def q_def r_def)
    then have "int (round_half_even a b) * int b - int a = int b - int r"
      using a by (simp add: algebra_simps)
    then show ?thesis using True r by auto
  next
    case False
    then have "round_half_even a b = q"
      by (simp add: round_half_even_def Let_def q_def r_def)
    then have "int (round_half_even a b) * int b - int a = - int r"
      using a by simp
    then show ?thesis using False by auto
  qed
qed

lemma bit_length_le: "n < 2 ^ k \<Longrightarrow> bit_length n \<le> k"
proof (induction n arbitrary: k rule: bit_length.induct)
  case (1 n)
  show ?case
  proof (cases "n = 0")
    case True
    then show ?thesis by (simp add: bit_length.simps)
  next
    case False
    then obtain j where k: "k = Suc j" using "1.prems" by (cases k) auto
    have "n div 2 < 2 ^ j" using "1.prems" k by auto
    then have "bit_length (n div 2) \<le> j" using "1.IH" False by simp
    then show ?thesis using False k by (simp add: bit_length.simps [of n])
  qed
qed

lemma round53_exact: "n < 2 ^ 53 \<Longrightarrow> round53 n = n"
  using bit_length_le [of n 53] by (simp add: round53_def)

lemma hundredths_mib_error:
  "2 * \<bar>int (hundredths_mib n) * 2 ^ 20 - 100 * int (round53 n)\<bar> \<le> 2 ^ 20"
  using round_half_even_error [of "2 ^ 20" "100 * round53 n"]
  by (simp add: hundredths_mib_def)

lemma hundredths_2mib: "hundredths_mib 2097152 = 200"
proof -
  have "round53 2097152 = 2097152" by (rule round53_exact) simp
  then show ?thesis by (simp add: hundredths_mib_def round_half_even_def Let_def)
qed

lemma format_2f_200: "format_2f 200 = ''2.00''"
  by (simp add: format_2f_def str_nat.simps [of 2] digit_char_def)

lemma handle_exn_status: "snd (handle_exn e) = 403 \<or> snd (handle_exn e) = 500"
  by (cases e) (simp_all add: error_response_def)

lemma read_file_status_413:
  "snd (fst (api_read_file os p)) = 413 \<longleftrightarrow>
     served_file os p \<and> (\<exists>n. getsize os (path_join PROJECT_ROOT p) = Inr n \<and> n > 1048576)"
  using handle_exn_status [of "projl (getsize os (path_join PROJECT_ROOT p))"]
    handle_exn_status [of "projl (read_text os (path_join PROJECT_ROOT p))"]
  by (auto simp: api_read_file_def served_file_def error_response_def Let_def
           split: sum.splits exn.splits)

lemma read_file_too_large:
  "served_file os p \<Longrightarrow> getsize os (path_join PROJECT_ROOT p) = Inr n \<Longrightarrow> n > 1048576 \<Longrightarrow>
   fst (api_read_file os p) =
     (JObj [(''error'', JStr ''File too large''),
            (''message'', JStr (''File size: '' @ format_2f (hundredths_mib n) @ ''MB. Maximum: 1MB''))],
      413)"
  by (simp add: api_read_file_def served_file_def Let_def)

lemma served_big: "served_file os_files ''big.bin''"
  by (simp add: served_file_def os_files_def os_none_def str_in_def startswith_def endswith_def
      path_join_def PROJECT_ROOT_def sublist_Cons_right suffix_to_prefix)

lemma getsize_big: "getsize os_files (path_join PROJECT_ROOT ''big.bin'') = Inr 2097152"
  by (simp add: os_files_def os_none_def startswith_def endswith_def
      path_join_def PROJECT_ROOT_def suffix_to_prefix)

lemma below_ten: "d < 10 \<Longrightarrow> d \<in> {0, 1, 2, 3, 4, 5, 6, 7, 8, 9::nat}"
  by auto

lemma digit_val_digit_char: "d < 10 \<Longrightarrow> digit_val (digit_char d) = Some d"
  using below_ten [of d] by (auto simp: digit_val_def digit_char_def)

lemma digit_char_not_point: "d < 10 \<Longrightarrow> digit_char d \<noteq> CHR ''.''"
  using below_ten [of d] by (auto simp: digit_char_def)

lemma digits_val_append:
  "digits_val (xs @ ys) acc =
     (case digits_val xs acc of None \<Rightarrow> None | Some v \<Rightarrow> digits_val ys v)"
  by (induction xs arbitrary: acc) (auto split: option.splits)

lemma digits_val_str_nat: "digits_val (str_nat n) 0 = Some n"
proof (induction n rule: str_nat.induct)
  case (1 n)
  show ?case
  proof (cases "n < 10")
    case True
    then show ?thesis by (simp add: str_nat.simps [of n] digit_val_digit_char)
  next
    case False
    then have "digits_val (str_nat (n div 10)) 0 = Some (n div 10)" using "1.IH" by simp
    then show ?thesis using False
      by (simp add: str_nat.simps [of n] digits_val_append digit_val_digit_char)
  qed
qed

lemma str_nat_no_point: "CHR ''.'' \<notin> set (str_nat n)"
proof (induction n rule: str_nat.induct)
  case (1 n)
  show ?case
  proof (cases "n < 10")
    case True
    then show ?thesis using digit_char_not_point [of n] by (simp add: str_nat.simps [of n])
  next
    case False
    then show ?thesis using "1.IH" digit_char_not_point [of "n mod 10"]
      by (simp add: str_nat.simps [of n])
  qed
qed

lemma str_nat_nonempty: "str_nat n \<noteq> []"
  by (simp add: str_nat.simps [of n])

lemma parse_format_2f: "parse_2f (format_2f h) = Some h"
proof -
  let ?ip = "str_nat (h div 100)"
  let ?a = "h mod 100 div 10" and ?b = "h mod 10"
  let ?fp = "[digit_char ?a, digit_char ?b]"
  have f: "format_2f h = ?ip @ CHR ''.'' # ?fp"
    by (simp add: format_2f_def)
  have tw: "takeWhile (\<lambda>c. c \<noteq> CHR ''.'') (format_2f h) = ?ip"
    unfolding f using str_nat_no_point [of "h div 100"] by (simp add: takeWhile_append)
  have dr: "drop (length ?ip + 1) (format_2f h) = ?fp"
    unfolding f by simp
  have c: "\<not> (?ip = [] \<or> length (format_2f h) \<le> length ?ip \<or> length ?fp \<noteq> 2)"
    unfolding f using str_nat_nonempty [of "h div 100"] by simp
  have a10: "?a < 10" and b10: "?b < 10" by simp_all
  have fp: "digits_val ?fp 0 = Some (10 * ?a + ?b)"
    using digit_val_digit_char [OF a10] digit_val_digit_char [OF b10] by simp
  have m: "h mod 10 = h mod 100 mod 10"
    by (simp add: mod_mod_cancel)
  have lo: "10 * ?a + h mod 100 mod 10 = h mod 100"
    by (rule mult_div_mod_eq)
  have hi: "100 * (h div 100) + h mod 100 = h"
    by (rule mult_div_mod_eq)
  have ar: "100 * (h div 100) + (10 * ?a + ?b) = h"
    unfolding m lo hi ..
  have "parse_2f (format_2f h) = Some (100 * (h div 100) + (10 * ?a + ?b))"
    unfolding parse_2f_def Let_def tw dr
    by (simp only: c if_False digits_val_str_nat fp prod.case option.case)
  then show ?thesis unfolding ar .
qed

lemma bit_length_gt: "2 ^ k \<le> n \<Longrightarrow> k < bit_length n"
proof (induction n arbitrary: k rule: bit_length.induct)
  case (1 n)
  have "0 < (2::nat) ^ k" by simp
  with "1.prems" have n0: "n \<noteq> 0" by linarith
  show ?case
  proof (cases k)
    case 0
    then show ?thesis using n0 by (simp add: bit_length.simps [of n])
  next
    case (Suc j)
    then have "2 ^ j \<le> n div 2" using "1.prems" by auto
    then have "j < bit_length (n div 2)" using "1.IH" n0 by simp
    then show ?thesis using n0 Suc by (simp add: bit_length.simps [of n])
  qed
qed

lemma bit_length_huge: "bit_length 4611686018427414118 = 63"
proof -
  have "bit_length 4611686018427414118 \<le> 63" by (rule bit_length_le) simp
  moreover have "62 < bit_length 4611686018427414118" by (rule bit_length_gt) simp
  ultimately show ?thesis by simp
qed

lemma round53_huge: "round53 4611686018427414118 = 4611686018427414528"
  by (simp add: round53_def bit_length_huge round_half_even_def Let_def)

lemma hundredths_huge: "hundredths_mib 4611686018427414118 = 439804651110403"
  by (simp add: hundredths_mib_def round53_huge round_half_even_def Let_def)

lemma str_nat_lt10: "n < 10 \<Longrightarrow> str_nat n = [digit_char n]"
  by (simp add: str_nat.simps [of n])

lemma str_nat_ge10: "10 \<le> n \<Longrightarrow> str_nat n = str_nat (n div 10) @ [digit_char (n mod 10)]"
  by (simp add: str_nat.simps [of n])

lemma format_2f_huge: "format_2f 439804651110403 = ''4398046511104.03''"
  by (simp add: format_2f_def str_nat_lt10 str_nat_ge10 digit_char_def)

lemma round53_error: "2 * \<bar>int (round53 n) - int n\<bar> \<le> 2 ^ (bit_length n - 53)"
proof (cases "bit_length n \<le> 53")
  case True
  then show ?thesis by (simp add: round53_def)
next
  case False
  then show ?thesis
    using round_half_even_error [of "2 ^ (bit_length n - 53)" n]
    by (simp add: round53_def Let_def)
qed

lemma served_huge: "served_file os_files ''huge.img''"
  by (simp add: served_file_def os_files_def os_none_def str_in_def startswith_def endswith_def
      path_join_def PROJECT_ROOT_def sublist_Cons_right suffix_to_prefix)

lemma getsize_huge:
  "getsize os_files (path_join PROJECT_ROOT ''huge.img'') = Inr 4611686018427414118"
  by (simp add: os_files_def os_none_def startswith_def endswith_def
      path_join_def PROJECT_ROOT_def suffix_to_prefix)

text \<open>
  C5. \<open>api_read_file\<close> answers with status 413 exactly when the request reaches the file
  and the size \<open>os.path.getsize\<close> reports exceeds 1,048,576 bytes. The message then shows
  a decimal numeral with two digits after the point; the number it denotes is the binary64
  value of the size, which is within half a unit in the last of its 53 bits of the size,
  over \<open>2^20\<close> and rounded to the nearest hundredth. For every size below \<open>2^53\<close> bytes
  that is the size itself in mebibytes rounded to two decimals. A file of 2,097,152 bytes
  is shown as \<open>2.00\<close>.
\<close>

theorem too_large_exactly_above_ceiling:
  "(snd (fst (api_read_file os p)) = 413 \<longleftrightarrow>
      served_file os p \<and>
      (\<exists>n. getsize os (path_join PROJECT_ROOT p) = Inr n \<and> n > 1048576)) \<and>
   (served_file os p \<and> getsize os (path_join PROJECT_ROOT p) = Inr n \<and> n > 1048576 \<longrightarrow>
      fst (api_read_file os p) =
        (JObj [(''error'', JStr ''File too large''),
               (''message'',
                  JStr (''File size: '' @ format_2f (hundredths_mib n) @ ''MB. Maximum: 1MB''))],
         413) \<and>
      parse_2f (format_2f (hundredths_mib n)) = Some (hundredths_mib n) \<and>
      nearest_hundredths (round53 n) (hundredths_mib n) \<and>
      2 * \<bar>int (round53 n) - int n\<bar> \<le> 2 ^ (bit_length n - 53) \<and>
      (n < 2 ^ 53 \<longrightarrow> nearest_hundredths n (hundredths_mib n))) \<and>
   format_2f (hundredths_mib 2097152) = ''2.00''"
proof -
  have a: "nearest_hundredths (round53 n) (hundredths_mib n)"
    using hundredths_mib_error [of n] by (simp add: nearest_hundredths_def)
  have b: "nearest_hundredths n (hundredths_mib n)" if "n < 2 ^ 53"
    using a round53_exact [OF that] by simp
  have c: "format_2f (hundredths_mib 2097152) = ''2.00''"
    by (simp add: hundredths_2mib format_2f_200)
  show ?thesis
    using read_file_status_413 [of os p] read_file_too_large [of os p n]
      parse_format_2f [of "hundredths_mib n"] a b c round53_error [of n]
    by blast
qed

theorem too_large_exactly_above_ceiling_witness:
  "served_file os_files ''big.bin'' \<and>
   getsize os_files (path_join PROJECT_ROOT ''big.bin'') = Inr 2097152 \<and>
   (2097152 :: nat) > 1048576 \<and> (2097152 :: nat) < 2 ^ 53 \<and>
   api_read_file os_files ''big.bin'' =
     ((JObj [(''error'', JStr ''File too large''),
            (''message'', JStr ''File size: 2.00MB. Maximum: 1MB'')], 413),
      [Realpath ''/home/dragon/big.bin'', Realpath ''/home/dragon'',
       Exists ''/home/dragon/big.bin'', Isfile ''/home/dragon/big.bin'',
       Getsize ''/home/dragon/big.bin'']) \<and>
   parse_2f ''2.00'' = Some 200 \<and>
   nearest_hundredths 2097152 200"
proof -
  note t = too_large_exactly_above_ceiling [of os_files "''big.bin''" 2097152]
  have tr: "snd (api_read_file os_files ''big.bin'') =
      [Realpath ''/home/dragon/big.bin'', Realpath ''/home/dragon'',
       Exists ''/home/dragon/big.bin'', Isfile ''/home/dragon/big.bin'',
       Getsize ''/home/dragon/big.bin'']"
    using served_big getsize_big
    by (simp add: api_read_file_def served_file_def Let_def)
       (simp add: path_join_def PROJECT_ROOT_def startswith_def endswith_def suffix_to_prefix)
  have lt: "(2097152 :: nat) > 1048576" "(2097152 :: nat) < 2 ^ 53" by simp_all
  from t served_big getsize_big lt have
    r: "fst (api_read_file os_files ''big.bin'') =
        (JObj [(''error'', JStr ''File too large''),
               (''message'',
                  JStr (''File size: '' @ format_2f (hundredths_mib 2097152) @ ''MB. Maximum: 1MB''))],
         413)"
    and q: "parse_2f (format_2f (hundredths_mib 2097152)) = Some (hundredths_mib 2097152)"
    and e: "nearest_hundredths 2097152 (hundredths_mib 2097152)"
    and f: "format_2f (hundredths_mib 2097152) = ''2.00''"
    by blast+
  have "api_read_file os_files ''big.bin'' =
     ((JObj [(''error'', JStr ''File too large''),
            (''message'', JStr ''File size: 2.00MB. Maximum: 1MB'')], 413),
      [Realpath ''/home/dragon/big.bin'', Realpath ''/home/dragon'',
       Exists ''/home/dragon/big.bin'', Isfile ''/home/dragon/big.bin'',
       Getsize ''/home/dragon/big.bin''])"
    using r tr unfolding f by (simp add: prod_eq_iff)
  moreover have "parse_2f ''2.00'' = Some 200"
    using q unfolding hundredths_2mib format_2f_200 .
  moreover have "nearest_hundredths 2097152 200" using e unfolding hundredths_2mib .
  ultimately show ?thesis using served_big getsize_big lt by blast
qed

text \<open>
  For a size of \<open>2^53\<close> bytes or more the number shown need not be the size in mebibytes
  rounded to two decimals: a file of 4,611,686,018,427,414,118 bytes is shown as
  \<open>4398046511104.03\<close>, and the hundredth nearest to its size is \<open>4398046511104.02\<close>.
\<close>

theorem too_large_message_counterexample:
  "served_file os_files ''huge.img'' \<and>
   getsize os_files (path_join PROJECT_ROOT ''huge.img'') = Inr 4611686018427414118 \<and>
   fst (api_read_file os_files ''huge.img'') =
     (JObj [(''error'', JStr ''File too large''),
            (''message'', JStr ''File size: 4398046511104.03MB. Maximum: 1MB'')], 413) \<and>
   parse_2f ''4398046511104.03'' = Some 439804651110403 \<and>
   \<not> nearest_hundredths 4611686018427414118 439804651110403 \<and>
   nearest_hundredths 4611686018427414118 439804651110402"
proof -
  have m: "fst (api_read_file os_files ''huge.img'') =
     (JObj [(''error'', JStr ''File too large''),
            (''message'', JStr ''File size: 4398046511104.03MB. Maximum: 1MB'')], 413)"
    using read_file_too_large [OF served_huge getsize_huge]
    by (simp add: hundredths_huge format_2f_huge)
  have p: "parse_2f ''4398046511104.03'' = Some 439804651110403"
    using parse_format_2f [of 439804651110403] by (simp add: format_2f_huge)
  have n: "\<not> nearest_hundredths 4611686018427414118 439804651110403"
    "nearest_hundredths 4611686018427414118 439804651110402"
    by (simp_all add: nearest_hundredths_def)
  show ?thesis using served_huge getsize_huge m p n by blast
qed

lemma read_file_status_415:
  "snd (fst (api_read_file os p)) = 415 \<longleftrightarrow>
     served_file os p \<and>
     (\<exists>n m. getsize os (path_join PROJECT_ROOT p) = Inr n \<and> n \<le> 1048576 \<and>
        read_text os (path_join PROJECT_ROOT p) = Inl (UnicodeDecodeError m))"
  using handle_exn_status [of "projl (getsize os (path_join PROJECT_ROOT p))"]
    handle_exn_status [of "projl (read_text os (path_join PROJECT_ROOT p))"]
  by (auto simp: api_read_file_def served_file_def error_response_def Let_def
           split: sum.splits exn.splits)

lemma read_file_binary:
  "served_file os p \<Longrightarrow> getsize os (path_join PROJECT_ROOT p) = Inr n \<Longrightarrow> n \<le> 1048576 \<Longrightarrow>
   read_text os (path_join PROJECT_ROOT p) = Inl (UnicodeDecodeError m) \<Longrightarrow>
   fst (api_read_file os p) =
     (JObj [(''error'', JStr ''Binary file''),
            (''message'', JStr ''Cannot display binary files''),
            (''name'', JStr (basename p)),
            (''path'', JStr p),
            (''size'', JInt (int n)),
            (''type'', JStr ''binary'')], 415)"
  by (simp add: api_read_file_def served_file_def Let_def)

lemma read_file_text:
  "served_file os p \<Longrightarrow> getsize os (path_join PROJECT_ROOT p) = Inr n \<Longrightarrow> n \<le> 1048576 \<Longrightarrow>
   read_text os (path_join PROJECT_ROOT p) = Inr content \<Longrightarrow>
   fst (api_read_file os p) =
     (JObj [(''name'', JStr (basename p)),
            (''path'', JStr p),
            (''content'', JStr content),
            (''size'', JInt (int n)),
            (''type'', JStr ''text'')], 200)"
  by (simp add: api_read_file_def served_file_def Let_def)

lemma segments_no_sep: "CHR ''/'' \<notin> set p \<Longrightarrow> path_segments p = [p]"
  by (induction p) auto

lemma segments_with_sep: "CHR ''/'' \<in> set p \<Longrightarrow> tl (path_segments p) \<noteq> []"
proof (induction p)
  case Nil
  then show ?case by simp
next
  case (Cons c cs)
  obtain w ws where ws: "path_segments cs = w # ws"
    using path_segments_nonempty by (cases "path_segments cs") auto
  show ?case
  proof (cases "c = CHR ''/''")
    case True
    then show ?thesis using ws by simp
  next
    case False
    then have "CHR ''/'' \<in> set cs" using Cons.prems by simp
    then have "ws \<noteq> []" using Cons.IH ws by simp
    then show ?thesis using False ws by simp
  qed
qed

lemma last_segment:
  "last (path_segments p) = rev (takeWhile (\<lambda>c. c \<noteq> CHR ''/'') (rev p))"
proof (induction p)
  case Nil
  show ?case by simp
next
  case (Cons c cs)
  obtain w ws where ws: "path_segments cs = w # ws"
    using path_segments_nonempty by (cases "path_segments cs") auto
  show ?case
  proof (cases "CHR ''/'' \<in> set cs")
    case True
    then have tl: "ws \<noteq> []" using segments_with_sep [of cs] ws by simp
    have "takeWhile (\<lambda>c. c \<noteq> CHR ''/'') (rev cs @ [c]) = takeWhile (\<lambda>c. c \<noteq> CHR ''/'') (rev cs)"
      by (rule takeWhile_append1 [of "CHR ''/''"]) (use True in auto)
    then show ?thesis using Cons.IH ws tl by (cases "c = CHR ''/''") simp_all
  next
    case False
    then have one: "path_segments cs = [cs]" by (rule segments_no_sep)
    have tw: "takeWhile (\<lambda>c. c \<noteq> CHR ''/'') (rev cs @ [c]) =
            rev cs @ takeWhile (\<lambda>c. c \<noteq> CHR ''/'') [c]"
      by (rule takeWhile_append2) (use False in auto)
    show ?thesis unfolding rev.simps tw using one by (cases "c = CHR ''/''") simp_all
  qed
qed

lemma basename_last_segment: "basename p = last (path_segments p)"
proof -
  let ?P = "\<lambda>c. c \<noteq> CHR ''/''"
  let ?k = "length (takeWhile ?P (rev p))"
  have "rev (takeWhile ?P (rev p)) = rev (take ?k (rev p))"
    by (simp add: takeWhile_eq_take [symmetric])
  also have "\<dots> = drop (length p - ?k) p"
    by (simp add: rev_take)
  finally show ?thesis
    by (simp add: basename_def rfind_sep_plus1_def last_segment)
qed

lemma read_text_big:
  "read_text os_files (path_join PROJECT_ROOT ''big.bin'') =
     Inl (UnicodeDecodeError ''invalid start byte'')"
  by (simp add: os_files_def os_none_def startswith_def endswith_def
      path_join_def PROJECT_ROOT_def suffix_to_prefix)

lemma served_notes: "served_file os_files ''notes.txt''"
  by (simp add: served_file_def os_files_def os_none_def str_in_def startswith_def endswith_def
      path_join_def PROJECT_ROOT_def sublist_Cons_right suffix_to_prefix)

lemma files_notes:
  "getsize os_files (path_join PROJECT_ROOT ''notes.txt'') = Inr 5 \<and>
   read_text os_files (path_join PROJECT_ROOT ''notes.txt'') = Inr ''hello''"
  by (simp add: os_files_def os_none_def startswith_def endswith_def
      path_join_def PROJECT_ROOT_def suffix_to_prefix)

lemma served_raw: "served_file os_files ''sub/raw.bin''"
  by (simp add: served_file_def os_files_def os_none_def str_in_def startswith_def endswith_def
      path_join_def PROJECT_ROOT_def sublist_Cons_right suffix_to_prefix)

lemma files_raw:
  "getsize os_files (path_join PROJECT_ROOT ''sub/raw.bin'') = Inr 4 \<and>
   read_text os_files (path_join PROJECT_ROOT ''sub/raw.bin'') =
     Inl (UnicodeDecodeError ''invalid start byte'')"
  by (simp add: os_files_def os_none_def startswith_def endswith_def
      path_join_def PROJECT_ROOT_def suffix_to_prefix)

text \<open>
  C6. When the request reaches the file, the file is within the size ceiling and reading it
  as UTF-8 raises \<open>UnicodeDecodeError\<close>, \<open>api_read_file\<close> answers with status 415, which
  no other outcome uses; the body carries the file's name (the last segment of the path),
  the path and the size, and has no \<open>content\<close> field. A file above the ceiling is
  answered with status 413 whatever its bytes. When the read succeeds, the answer has
  status 200, the whole text under \<open>content\<close>, and type \<open>text\<close>.
\<close>

theorem undecodable_file_is_binary_unsupported:
  "(snd (fst (api_read_file os p)) = 415 \<longleftrightarrow>
      served_file os p \<and>
      (\<exists>n m. getsize os (path_join PROJECT_ROOT p) = Inr n \<and> n \<le> 1048576 \<and>
         read_text os (path_join PROJECT_ROOT p) = Inl (UnicodeDecodeError m))) \<and>
   (served_file os p \<and> getsize os (path_join PROJECT_ROOT p) = Inr n \<and> n \<le> 1048576 \<and>
    read_text os (path_join PROJECT_ROOT p) = Inl (UnicodeDecodeError m) \<longrightarrow>
      snd (fst (api_read_file os p)) = 415 \<and>
      item_get (fst (fst (api_read_file os p))) ''error'' = Some (JStr ''Binary file'') \<and>
      item_get (fst (fst (api_read_file os p))) ''name'' = Some (JStr (last (path_segments p))) \<and>
      item_get (fst (fst (api_read_file os p))) ''path'' = Some (JStr p) \<and>
      item_get (fst (fst (api_read_file os p))) ''size'' = Some (JInt (int n)) \<and>
      item_get (fst (fst (api_read_file os p))) ''type'' = Some (JStr ''binary'') \<and>
      item_get (fst (fst (api_read_file os p))) ''content'' = None) \<and>
   (served_file os p \<and> getsize os (path_join PROJECT_ROOT p) = Inr n \<and> n > 1048576 \<longrightarrow>
      snd (fst (api_read_file os p)) = 413) \<and>
   (served_file os p \<and> getsize os (path_join PROJECT_ROOT p) = Inr n \<and> n \<le> 1048576 \<and>
    read_text os (path_join PROJECT_ROOT p) = Inr content \<longrightarrow>
      snd (fst (api_read_file os p)) = 200 \<and>
      item_get (fst (fst (api_read_file os p))) ''name'' = Some (JStr (last (path_segments p))) \<and>
      item_get (fst (fst (api_read_file os p))) ''content'' = Some (JStr content) \<and>
      item_get (fst (fst (api_read_file os p))) ''type'' = Some (JStr ''text''))"
  using read_file_status_415 [of os p] read_file_binary [of os p n m]
    read_file_text [of os p n content] read_file_too_large [of os p n]
  by (simp add: basename_last_segment)

theorem undecodable_file_is_binary_unsupported_witness:
  "served_file os_files ''sub/raw.bin'' \<and>
   getsize os_files (path_join PROJECT_ROOT ''sub/raw.bin'') = Inr 4 \<and> (4::nat) \<le> 1048576 \<and>
   read_text os_files (path_join PROJECT_ROOT ''sub/raw.bin'') =
     Inl (UnicodeDecodeError ''invalid start byte'') \<and>
   fst (api_read_file os_files ''sub/raw.bin'') =
     (JObj [(''error'', JStr ''Binary file''),
            (''message'', JStr ''Cannot display binary files''),
            (''name'', JStr ''raw.bin''),
            (''path'', JStr ''sub/raw.bin''),
            (''size'', JInt 4),
            (''type'', JStr ''binary'')], 415) \<and>
   item_get (fst (fst (api_read_file os_files ''sub/raw.bin''))) ''name'' = Some (JStr ''raw.bin'') \<and>
   item_get (fst (fst (api_read_file os_files ''sub/raw.bin''))) ''content'' = None \<and>
   served_file os_files ''notes.txt'' \<and>
   getsize os_files (path_join PROJECT_ROOT ''notes.txt'') = Inr 5 \<and>
   read_text os_files (path_join PROJECT_ROOT ''notes.txt'') = Inr ''hello'' \<and>
   snd (fst (api_read_file os_files ''notes.txt'')) = 200 \<and>
   item_get (fst (fst (api_read_file os_files ''notes.txt''))) ''content'' = Some (JStr ''hello'') \<and>
   served_file os_files ''big.bin'' \<and>
   getsize os_files (path_join PROJECT_ROOT ''big.bin'') = Inr 2097152 \<and>
   snd (fst (api_read_file os_files ''big.bin'')) = 413"
proof -
  have b: "basename ''sub/raw.bin'' = ''raw.bin''"
    by (simp add: basename_def rfind_sep_plus1_def)
  have full: "fst (api_read_file os_files ''sub/raw.bin'') =
     (JObj [(''error'', JStr ''Binary file''),
            (''message'', JStr ''Cannot display binary files''),
            (''name'', JStr ''raw.bin''),
            (''path'', JStr ''sub/raw.bin''),
            (''size'', JInt 4),
            (''type'', JStr ''binary'')], 415)"
    using read_file_binary [OF served_raw, of 4 "''invalid start byte''"] files_raw
    by (simp add: b)
  have lt: "(2097152::nat) > 1048576" by simp
  show ?thesis
    using undecodable_file_is_binary_unsupported
            [of os_files "''sub/raw.bin''" 4 "''invalid start byte''" "''x''"]
          undecodable_file_is_binary_unsupported
            [of os_files "''notes.txt''" 5 "''x''" "''hello''"]
          undecodable_file_is_binary_unsupported
            [of os_files "''big.bin''" 2097152 "''x''" "''x''"]
          served_raw served_notes served_big files_raw files_notes getsize_big full lt
    by simp
qed

text \<open>
  The size test comes before the file is opened: \<open>big.bin\<close>, of 2 MiB and not UTF-8, is
  answered with status 413, not 415.
\<close>

theorem undecodable_large_file_counterexample:
  "served_file os_files ''big.bin'' \<and>
   getsize os_files (path_join PROJECT_ROOT ''big.bin'') = Inr 2097152 \<and>
   read_text os_files (path_join PROJECT_ROOT ''big.bin'') =
     Inl (UnicodeDecodeError ''invalid start byte'') \<and>
   snd (fst (api_read_file os_files ''big.bin'')) = 413 \<and>
   snd (fst (api_read_file os_files ''big.bin'')) \<noteq> 415"
proof -
  have "snd (fst (api_read_file os_files ''big.bin'')) = 413"
    using read_file_too_large [OF served_big getsize_big] by simp
  then show ?thesis using served_big getsize_big read_text_big by simp
qed

section \<open>Directory listings\<close>

lemma browse_loop_items:
  "browse_loop os t s entries items tr = (Inr res, tr') \<Longrightarrow>
   \<exists>new. res = items @ new \<and>
         map item_name new = filter (listed os t) entries \<and>
         (\<forall>it \<in> set new. item_get it ''type'' = Some (JStr ''directory'') \<or>
                           item_get it ''type'' = Some (JStr ''file''))"
proof (induction entries arbitrary: items tr)
  case Nil
  then show ?case by simp
next
  case (Cons entry entries)
  show ?case
  proof (cases "browse_hidden entry")
    case True
    with Cons.prems have "browse_loop os t s entries items tr = (Inr res, tr')" by simp
    from Cons.IH [OF this] True show ?thesis by (simp add: listed_def)
  next
    case False
    show ?thesis
    proof (cases "stat os (path_join t entry)")
      case (Inl e)
      with False Cons.prems
      have "browse_loop os t s entries items (tr @ [Stat (path_join t entry)]) = (Inr res, tr')"
        by (cases e) (simp_all add: Let_def)
      from Cons.IH [OF this] Inl show ?thesis by (simp add: listed_def)
    next
      case (Inr st)
      show ?thesis
      proof (cases "strftime_local os ''%Y-%m-%d %H:%M:%S'' (st_mtime st)")
        case (Inl e)
        with False Inr Cons.prems
        have "browse_loop os t s entries items
                (tr @ [Stat (path_join t entry), Isdir (path_join t entry)]) = (Inr res, tr')"
          by (cases e) (simp_all add: Let_def)
        from Cons.IH [OF this] Inl Inr show ?thesis by (simp add: listed_def)
      next
        case modified: (Inr modified)
        define it where "it = JObj [
            (''name'', JStr entry),
            (''path'', JStr (if s \<noteq> [] then path_join s entry else entry)),
            (''type'', JStr (if isdir os (path_join t entry) then ''directory'' else ''file'')),
            (''size'', if \<not> isdir os (path_join t entry) then JInt (int (st_size st)) else JNull),
            (''modified'', JStr modified)]"
        from False Inr modified Cons.prems
        have "browse_loop os t s entries (items @ [it])
                (tr @ [Stat (path_join t entry), Isdir (path_join t entry)]) = (Inr res, tr')"
          by (simp add: Let_def it_def)
        from Cons.IH [OF this] obtain new where
          new: "res = (items @ [it]) @ new" "map item_name new = filter (listed os t) entries"
            "\<forall>i \<in> set new. item_get i ''type'' = Some (JStr ''directory'') \<or>
                            item_get i ''type'' = Some (JStr ''file'')"
          by blast
        have "item_name it = entry" by (simp add: it_def item_name_def)
        moreover have "item_get it ''type'' = Some (JStr ''directory'') \<or>
                       item_get it ''type'' = Some (JStr ''file'')"
          by (simp add: it_def)
        moreover have "listed os t entry" using False Inr modified by (simp add: listed_def)
        ultimately show ?thesis using new
          by (intro exI [of _ "it # new"]) simp
      qed
    qed
  qed
qed

lemma api_browse_listing:
  assumes "fst (api_browse os p) = (body, 200)"
  shows "\<exists>new names.
     listdir os (if p \<noteq> [] then path_join PROJECT_ROOT p else PROJECT_ROOT) = Inr names \<and>
     item_get body ''items'' = Some (JList (
       filter (\<lambda>item. item_get item ''type'' = Some (JStr ''directory'')) new @
       filter (\<lambda>item. item_get item ''type'' = Some (JStr ''file'')) new)) \<and>
     map item_name new =
       filter (listed os (if p \<noteq> [] then path_join PROJECT_ROOT p else PROJECT_ROOT)) (sort names) \<and>
     (\<forall>it \<in> set new. item_get it ''type'' = Some (JStr ''directory'') \<or>
                       item_get it ''type'' = Some (JStr ''file''))"
proof -
  let ?t = "if p \<noteq> [] then path_join PROJECT_ROOT p else PROJECT_ROOT"
  let ?tr2 = "[Realpath ?t, Realpath PROJECT_ROOT, Exists ?t, Isdir ?t, Listdir ?t]"
  have pre: "\<not> (str_in ''..'' p \<or> startswith p ''/'')"
    "startswith (realpath os ?t) (realpath os PROJECT_ROOT)" "path_exists os ?t" "isdir os ?t"
    using assms by (auto simp: api_browse_def error_response_def Let_def split: if_splits)
  have listing: "fst (browse_listing os ?t p [Realpath ?t, Realpath PROJECT_ROOT, Exists ?t, Isdir ?t])
      = (body, 200)"
    using assms pre by (simp add: api_browse_def Let_def)
  obtain names where names: "listdir os ?t = Inr names"
    using listing handle_exn_status [of "projl (listdir os ?t)"]
    by (cases "listdir os ?t") (auto simp: browse_listing_def Let_def)
  obtain r tr3 where loop: "browse_loop os ?t p (sort names) [] ?tr2 = (r, tr3)"
    by (cases "browse_loop os ?t p (sort names) [] ?tr2") auto
  obtain res where res: "r = Inr res"
    using listing names loop handle_exn_status [of "projl r"]
    by (cases r) (auto simp: browse_listing_def Let_def)
  have body: "item_get body ''items'' = Some (JList (
       filter (\<lambda>item. item_get item ''type'' = Some (JStr ''directory'')) res @
       filter (\<lambda>item. item_get item ''type'' = Some (JStr ''file'')) res))"
    using listing names loop res
    by (auto simp: browse_listing_def Let_def)
  from browse_loop_items [OF loop [unfolded res]] obtain new where
    "res = [] @ new" "map item_name new = filter (listed os ?t) (sort names)"
    "\<forall>it \<in> set new. item_get it ''type'' = Some (JStr ''directory'') \<or>
                      item_get it ''type'' = Some (JStr ''file'')"
    by blast
  with body names show ?thesis by auto
qed

lemma browse_listing_d:
  "api_browse os_listing ''d'' =
     ((JObj [(''current_path'', JStr ''d''),
             (''items'', JList [
                JObj [(''name'', JStr ''Alpha''), (''path'', JStr ''d/Alpha''),
                      (''type'', JStr ''directory''), (''size'', JNull),
                      (''modified'', JStr ''2024-05-01 12:00:00'')],
                JObj [(''name'', JStr ''beta.txt''), (''path'', JStr ''d/beta.txt''),
                      (''type'', JStr ''file''), (''size'', JInt 2),
                      (''modified'', JStr ''2024-05-01 12:00:00'')],
                JObj [(''name'', JStr ''zeta.txt''), (''path'', JStr ''d/zeta.txt''),
                      (''type'', JStr ''file''), (''size'', JInt 26),
                      (''modified'', JStr ''2024-05-01 12:00:00'')]]),
             (''parent_path'', JStr [])], 200),
      [Realpath ''/home/dragon/d'', Realpath ''/home/dragon'', Exists ''/home/dragon/d'',
       Isdir ''/home/dragon/d'', Listdir ''/home/dragon/d'',
       Stat ''/home/dragon/d/Alpha'', Isdir ''/home/dragon/d/Alpha'',
       Stat ''/home/dragon/d/beta.txt'', Isdir ''/home/dragon/d/beta.txt'',
       Stat ''/home/dragon/d/zeta.txt'', Isdir ''/home/dragon/d/zeta.txt''])"
  by (simp add: api_browse_def browse_listing_def os_listing_def os_none_def Let_def str_in_def
      startswith_def endswith_def
      path_join_def PROJECT_ROOT_def sublist_Cons_right suffix_to_prefix browse_hidden_def
      dirname_def rfind_sep_plus1_def rstrip_sep_def)

text \<open>
  C4. In every listing \<open>api_browse\<close> returns, the items are a run of directory entries
  followed by a run of file entries, each run in lexicographic order of the names, so every
  directory entry has a smaller index than every file entry. The children \<open>zeta.txt\<close>,
  \<open>Alpha/\<close>, \<open>beta.txt\<close> are listed as \<open>Alpha\<close>, \<open>beta.txt\<close>, \<open>zeta.txt\<close>.
\<close>

theorem listing_directories_before_files:
  assumes "fst (api_browse os p) = (body, 200)"
  shows "\<exists>ds fs. item_get body ''items'' = Some (JList (ds @ fs)) \<and>
           (\<forall>d \<in> set ds. item_get d ''type'' = Some (JStr ''directory'')) \<and>
           (\<forall>f \<in> set fs. item_get f ''type'' = Some (JStr ''file'')) \<and>
           sorted (map item_name ds) \<and> sorted (map item_name fs) \<and>
           (\<forall>i j. i < length (ds @ fs) \<and> j < length (ds @ fs) \<and>
                  item_get ((ds @ fs) ! i) ''type'' = Some (JStr ''directory'') \<and>
                  item_get ((ds @ fs) ! j) ''type'' = Some (JStr ''file'') \<longrightarrow> i < j)"
proof -
  let ?t = "if p \<noteq> [] then path_join PROJECT_ROOT p else PROJECT_ROOT"
  let ?D = "\<lambda>item. item_get item ''type'' = Some (JStr ''directory'')"
  let ?F = "\<lambda>item. item_get item ''type'' = Some (JStr ''file'')"
  from api_browse_listing [OF assms] obtain new names where
    body: "item_get body ''items'' = Some (JList (filter ?D new @ filter ?F new))" and
    names: "map item_name new = filter (listed os ?t) (sort names)"
    by blast
  define ds fs where "ds = filter ?D new" and "fs = filter ?F new"
  have "sorted (map (\<lambda>x. x) (filter (listed os ?t) (sort names)))"
    by (rule sorted_filter) simp
  then have sorted_new: "sorted (map item_name new)" using names by simp
  have sd: "sorted (map item_name ds)" and sf: "sorted (map item_name fs)"
    unfolding ds_def fs_def using sorted_new by (rule sorted_filter)+
  have d: "\<forall>d \<in> set ds. ?D d" and f: "\<forall>f \<in> set fs. ?F f"
    by (simp_all add: ds_def fs_def)
  have idx: "i < j" if "i < length (ds @ fs)" "j < length (ds @ fs)"
      "?D ((ds @ fs) ! i)" "?F ((ds @ fs) ! j)" for i j
  proof -
    have "i < length ds"
    proof (rule ccontr)
      assume "\<not> i < length ds"
      then have "(ds @ fs) ! i = fs ! (i - length ds)" "i - length ds < length fs"
        using that(1) by (auto simp: nth_append)
      then have "?F ((ds @ fs) ! i)" using f by (metis nth_mem)
      with that(3) show False by simp
    qed
    moreover have "\<not> j < length ds"
    proof
      assume "j < length ds"
      then have "(ds @ fs) ! j = ds ! j" "ds ! j \<in> set ds" by (auto simp: nth_append)
      then have "?D ((ds @ fs) ! j)" using d by metis
      with that(4) show False by simp
    qed
    ultimately show ?thesis by simp
  qed
  show ?thesis
    using body sd sf d f idx unfolding ds_def [symmetric] fs_def [symmetric] by blast
qed

theorem listing_directories_before_files_witness:
  "fst (api_browse os_listing ''d'') =
     (JObj [(''current_path'', JStr ''d''),
             (''items'', JList [
                JObj [(''name'', JStr ''Alpha''), (''path'', JStr ''d/Alpha''),
                      (''type'', JStr ''directory''), (''size'', JNull),
                      (''modified'', JStr ''2024-05-01 12:00:00'')],
                JObj [(''name'', JStr ''beta.txt''), (''path'', JStr ''d/beta.txt''),
                      (''type'', JStr ''file''), (''size'', JInt 2),
                      (''modified'', JStr ''2024-05-01 12:00:00'')],
                JObj [(''name'', JStr ''zeta.txt''), (''path'', JStr ''d/zeta.txt''),
                      (''type'', JStr ''file''), (''size'', JInt 26),
                      (''modified'', JStr ''2024-05-01 12:00:00'')]]),
             (''parent_path'', JStr [])], 200) \<and>
   (\<exists>ds fs. [JObj [(''name'', JStr ''Alpha''), (''path'', JStr ''d/Alpha''),
                      (''type'', JStr ''directory''), (''size'', JNull),
                      (''modified'', JStr ''2024-05-01 12:00:00'')],
                JObj [(''name'', JStr ''beta.txt''), (''path'', JStr ''d/beta.txt''),
                      (''type'', JStr ''file''), (''size'', JInt 2),
                      (''modified'', JStr ''2024-05-01 12:00:00'')],
                JObj [(''name'', JStr ''zeta.txt''), (''path'', JStr ''d/zeta.txt''),
                      (''type'', JStr ''file''), (''size'', JInt 26),
                      (''modified'', JStr ''2024-05-01 12:00:00'')]] = ds @ fs \<and>
           (\<forall>d \<in> set ds. item_get d ''type'' = Some (JStr ''directory'')) \<and>
           (\<forall>f \<in> set fs. item_get f ''type'' = Some (JStr ''file'')) \<and>
           sorted (map item_name ds) \<and> sorted (map item_name fs))"
proof -
  define body where "body = JObj [(''current_path'', JStr ''d''),
             (''items'', JList [
                JObj [(''name'', JStr ''Alpha''), (''path'', JStr ''d/Alpha''),
                      (''type'', JStr ''directory''), (''size'', JNull),
                      (''modified'', JStr ''2024-05-01 12:00:00'')],
                JObj [(''name'', JStr ''beta.txt''), (''path'', JStr ''d/beta.txt''),
                      (''type'', JStr ''file''), (''size'', JInt 2),
                      (''modified'', JStr ''2024-05-01 12:00:00'')],
                JObj [(''name'', JStr ''zeta.txt''), (''path'', JStr ''d/zeta.txt''),
                      (''type'', JStr ''file''), (''size'', JInt 26),
                      (''modified'', JStr ''2024-05-01 12:00:00'')]]),
             (''parent_path'', JStr [])]"
  have h: "fst (api_browse os_listing ''d'') = (body, 200)"
    by (simp add: browse_listing_d body_def)
  from listing_directories_before_files [OF h] obtain ds fs where
    "item_get body ''items'' = Some (JList (ds @ fs))"
    "\<forall>d \<in> set ds. item_get d ''type'' = Some (JStr ''directory'')"
    "\<forall>f \<in> set fs. item_get f ''type'' = Some (JStr ''file'')"
    "sorted (map item_name ds)" "sorted (map item_name fs)"
    by blast
  then show ?thesis using h unfolding body_def
    by (intro conjI exI [of _ ds] exI [of _ fs]) simp_all
qed

section \<open>Determinism of listings\<close>

lemma browse_loop_cong:
  "stat os' = stat os \<Longrightarrow> isdir os' = isdir os \<Longrightarrow> strftime_local os' = strftime_local os \<Longrightarrow>
   browse_loop os' t s entries items tr = browse_loop os t s entries items tr"
proof (induction entries arbitrary: items tr)
  case Nil
  show ?case by simp
next
  case (Cons e es)
  show ?case
    unfolding browse_loop.simps Cons.prems
    by (simp add: Cons.IH [OF Cons.prems] cong: sum.case_cong exn.case_cong if_cong)
qed

lemma same_listing_sort:
  "same_listing a b \<Longrightarrow>
     (\<exists>e. a = Inl e \<and> b = Inl e) \<or> (\<exists>xs ys. a = Inr xs \<and> b = Inr ys \<and> sort xs = sort ys)"
proof (cases a; cases b)
  fix xs ys assume "same_listing a b" "a = Inr xs" "b = Inr ys"
  then have "mset xs = mset ys" by (simp add: same_listing_def)
  then have "sort xs = sort ys" by (metis properties_for_sort mset_sort sorted_sort)
  then show ?thesis using \<open>a = Inr xs\<close> \<open>b = Inr ys\<close> by simp
qed (auto simp: same_listing_def)

lemma browse_listing_cong:
  assumes "same_listing (listdir os' t) (listdir os t)"
    and "isdir os' = isdir os" and "stat os' = stat os"
    and "strftime_local os' = strftime_local os"
  shows "browse_listing os' t s tr = browse_listing os t s tr"
proof -
  have loop: "browse_loop os' t s es items tr = browse_loop os t s es items tr" for es items tr
    by (rule browse_loop_cong [OF assms(3) assms(2) assms(4)])
  from same_listing_sort [OF assms(1)] show ?thesis
  proof (elim disjE exE conjE)
    fix e assume "listdir os' t = Inl e" "listdir os t = Inl e"
    then show ?thesis by (simp add: browse_listing_def)
  next
    fix xs ys assume "listdir os' t = Inr xs" "listdir os t = Inr ys" "sort xs = sort ys"
    then show ?thesis by (simp add: browse_listing_def loop)
  qed
qed

text \<open>
  C8. The answer of \<open>api_browse\<close>, calls included, is determined by the state of the
  filesystem: two machines that agree on canonical paths, existence, directories,
  \<open>os.stat\<close> and the printing of timestamps, and whose \<open>os.listdir\<close> reports the same
  names for every directory, in whatever order, give the same answer for the same path.
  Two invocations on one unchanged machine are the case where the machines are equal.
\<close>

theorem browse_deterministic:
  assumes "\<forall>d. same_listing (listdir os' d) (listdir os d)"
    and "realpath os' = realpath os" and "path_exists os' = path_exists os"
    and "isdir os' = isdir os" and "stat os' = stat os"
    and "strftime_local os' = strftime_local os"
  shows "api_browse os' p = api_browse os p"
proof -
  have "browse_listing os' t s tr = browse_listing os t s tr" for t s tr
    using assms(1) by (intro browse_listing_cong [OF _ assms(4) assms(5) assms(6)]) simp
  then show ?thesis
    by (simp add: api_browse_def assms(2-4) Let_def)
qed

lemma same_listing_refl: "same_listing a a"
  by (cases a) (simp_all add: same_listing_def)

lemma reordered_same:
  "\<forall>d. same_listing (listdir os_listing_reordered d) (listdir os_listing d)"
proof
  fix d
  show "same_listing (listdir os_listing_reordered d) (listdir os_listing d)"
  proof (cases "d = ''/home/dragon/d''")
    case True
    have "mset [''beta.txt'', ''zeta.txt'', ''Alpha''] = mset [''zeta.txt'', ''Alpha'', ''beta.txt'']"
      by (simp add: add.commute)
    moreover have "listdir os_listing_reordered d = Inr [''beta.txt'', ''zeta.txt'', ''Alpha'']"
      using True by (simp add: os_listing_reordered_def)
    moreover have "listdir os_listing d = Inr [''zeta.txt'', ''Alpha'', ''beta.txt'']"
      using True by (simp add: os_listing_def)
    ultimately show ?thesis by (simp add: same_listing_def)
  next
    case False
    then have "listdir os_listing_reordered d = listdir os_listing d"
      by (simp add: os_listing_reordered_def)
    then show ?thesis by (simp add: same_listing_refl)
  qed
qed

theorem browse_deterministic_witness:
  "(\<forall>d. same_listing (listdir os_listing_reordered d) (listdir os_listing d)) \<and>
   realpath os_listing_reordered = realpath os_listing \<and>
   path_exists os_listing_reordered = path_exists os_listing \<and>
   isdir os_listing_reordered = isdir os_listing \<and>
   stat os_listing_reordered = stat os_listing \<and>
   strftime_local os_listing_reordered = strftime_local os_listing \<and>
   listdir os_listing_reordered ''/home/dragon/d'' \<noteq> listdir os_listing ''/home/dragon/d'' \<and>
   api_browse os_listing_reordered ''d'' = api_browse os_listing ''d''"
proof -
  have f: "realpath os_listing_reordered = realpath os_listing"
    "path_exists os_listing_reordered = path_exists os_listing"
    "isdir os_listing_reordered = isdir os_listing"
    "stat os_listing_reordered = stat os_listing"
    "strftime_local os_listing_reordered = strftime_local os_listing"
    by (simp_all add: os_listing_reordered_def)
  have d: "listdir os_listing_reordered ''/home/dragon/d'' \<noteq> listdir os_listing ''/home/dragon/d''"
    by (simp add: os_listing_reordered_def os_listing_def)
  show ?thesis
    using browse_deterministic [OF reordered_same f, of "''d''"] reordered_same f d
    by simp
qed

section \<open>The test on canonical paths\<close>

text \<open>
  C1. Both handlers compare the canonical target with the canonical root by
  \<open>startswith\<close>, a test on characters. On the machine \<open>os_sibling\<close> the canonical target
  of \<open>link\<close> is \<open>/home/dragonX\<close>, which is not under \<open>/home/dragon\<close>: the prefix
  does not end on a separator. \<open>api_browse\<close> lists that directory and \<open>api_read_file\<close>
  returns the file in it, both with status 200.
\<close>

theorem sandbox_accepts_sibling_directory:
  "realpath os_sibling PROJECT_ROOT = ''/home/dragon'' \<and>
   realpath os_sibling (path_join PROJECT_ROOT ''link'') = ''/home/dragonX'' \<and>
   \<not> under_root ''/home/dragon'' ''/home/dragonX'' \<and>
   fst (api_browse os_sibling ''link'') =
     (JObj [(''current_path'', JStr ''link''),
            (''items'', JList [
               JObj [(''name'', JStr ''secret.txt''), (''path'', JStr ''link/secret.txt''),
                     (''type'', JStr ''file''), (''size'', JInt 6),
                     (''modified'', JStr ''2024-05-01 12:00:00'')]]),
            (''parent_path'', JStr [])], 200) \<and>
   realpath os_sibling (path_join PROJECT_ROOT ''link/secret.txt'') = ''/home/dragonX/secret.txt'' \<and>
   \<not> under_root ''/home/dragon'' ''/home/dragonX/secret.txt'' \<and>
   fst (api_read_file os_sibling ''link/secret.txt'') =
     (JObj [(''name'', JStr ''secret.txt''),
            (''path'', JStr ''link/secret.txt''),
            (''content'', JStr ''secret''),
            (''size'', JInt 6),
            (''type'', JStr ''text'')], 200)"
  by (simp add: api_browse_def browse_listing_def api_read_file_def os_sibling_def os_none_def
      Let_def str_in_def startswith_def endswith_def under_root_def
      path_join_def PROJECT_ROOT_def sublist_Cons_right suffix_to_prefix browse_hidden_def
      dirname_def basename_def rfind_sep_plus1_def rstrip_sep_def)

section \<open>Counting files\<close>

lemma walk_keep_excluded: "walk_keep d \<longleftrightarrow> \<not> excluded_dir d"
  by (simp add: walk_keep_def excluded_dir_def)

lemma foldl_count:
  "foldl (\<lambda>count (dirpath, dirs, files). count + length files) n ys =
     n + sum_list (map (\<lambda>(dirpath, dirs, files). length files) ys)"
  by (induction ys arbitrary: n) (auto simp: case_prod_beta)

lemma files_below_prefix:
  "(a, f) \<in> set (files_below anc t) \<Longrightarrow> prefix anc a"
  "(a, f) \<in> set (files_below_dirs anc dirs) \<Longrightarrow> prefix anc a"
proof (induction anc t and anc dirs rule: files_below_files_below_dirs.induct)
  case (1 anc dirs files)
  then show ?case by auto
next
  case (2 anc)
  then show ?case by simp
next
  case (3 anc d sub rest)
  then show ?case
    by (auto split: option.splits dest: append_prefixD)
qed

lemma files_below_cut:
  assumes "d \<in> set anc" "\<not> keep d"
  shows "filter (\<lambda>(a, f). \<forall>d \<in> set a. keep d) (files_below anc t) = []"
proof -
  have "\<not> (\<forall>d \<in> set a. keep d)" if "(a, f) \<in> set (files_below anc t)" for a f
    using files_below_prefix(1) [OF that] assms by (auto dest: set_mono_prefix)
  then show ?thesis by (auto simp: filter_empty_conv)
qed

lemma walk_counts_unpruned_files:
  "(\<forall>d \<in> set anc. keep d) \<Longrightarrow>
     sum_list (map (\<lambda>(dirpath, dirs, files). length files) (os_walk keep here t)) =
     length (filter (\<lambda>(a, f). \<forall>d \<in> set a. keep d) (files_below anc t))"
  "(\<forall>d \<in> set anc. keep d) \<Longrightarrow>
     sum_list (map (\<lambda>(dirpath, dirs, files). length files) (os_walk_dirs keep here dirs)) =
     length (filter (\<lambda>(a, f). \<forall>d \<in> set a. keep d) (files_below_dirs anc dirs))"
proof (induction keep here t and keep here dirs arbitrary: anc and anc
       rule: os_walk_os_walk_dirs.induct)
  case (1 keep here dirs files)
  have "filter (\<lambda>(a, f). \<forall>d \<in> set a. keep d) (map (\<lambda>f. (anc, f)) files) = map (\<lambda>f. (anc, f)) files"
    using "1.prems" by (induction files) auto
  then show ?case using "1.IH" [OF "1.prems"] by simp
next
  case (2 keep here)
  show ?case by simp
next
  case (3 keep here d sub rest)
  show ?case
  proof (cases "keep d")
    case True
    then have anc': "\<forall>x \<in> set (anc @ [d]). keep x" using "3.prems" by simp
    show ?thesis
    proof (cases sub)
      case None
      then show ?thesis using True "3.IH"(2) [OF "3.prems"] by simp
    next
      case (Some t)
      then show ?thesis
        using True "3.IH"(1) [OF True Some anc'] "3.IH"(2) [OF "3.prems"] by simp
    qed
  next
    case False
    have "filter (\<lambda>(a, f). \<forall>d \<in> set a. keep d) (files_below (anc @ [d]) t) = []" for t
      by (rule files_below_cut [of d]) (use False in auto)
    then show ?thesis using False "3.IH"(2) [OF "3.prems"]
      by (simp split: option.splits)
  qed
qed

lemma nodes_below_prefix:
  "(a, ds, fs) \<in> set (nodes_below anc t) \<Longrightarrow> prefix anc a"
  "(a, ds, fs) \<in> set (nodes_below_dirs anc dirs) \<Longrightarrow> prefix anc a"
proof (induction anc t and anc dirs rule: nodes_below_nodes_below_dirs.induct)
  case (1 anc dirs files)
  then show ?case by auto
next
  case (2 anc)
  then show ?case by simp
next
  case (3 anc d sub rest)
  then show ?case
    by (auto split: option.splits dest: append_prefixD)
qed

lemma nodes_below_cut:
  assumes "d \<in> set anc" "\<not> keep d"
  shows "filter (\<lambda>node. \<forall>d \<in> set (fst node). keep d) (nodes_below anc t) = []"
proof -
  have "\<not> (\<forall>d \<in> set a. keep d)" if "(a, ds, fs) \<in> set (nodes_below anc t)" for a ds fs
    using nodes_below_prefix(1) [OF that] assms by (auto dest: set_mono_prefix)
  then show ?thesis by (auto simp: filter_empty_conv)
qed

lemma walk_yields_kept_nodes:
  "(\<forall>d \<in> set anc. keep d) \<Longrightarrow>
     os_walk keep (foldl path_join here anc) t =
     map (\<lambda>node. (foldl path_join here (fst node), snd node))
       (filter (\<lambda>node. \<forall>d \<in> set (fst node). keep d) (nodes_below anc t))"
  "(\<forall>d \<in> set anc. keep d) \<Longrightarrow>
     os_walk_dirs keep (foldl path_join here anc) dirs =
     map (\<lambda>node. (foldl path_join here (fst node), snd node))
       (filter (\<lambda>node. \<forall>d \<in> set (fst node). keep d) (nodes_below_dirs anc dirs))"
proof (induction anc t and anc dirs rule: nodes_below_nodes_below_dirs.induct)
  case (1 anc dirs files)
  then show ?case by simp
next
  case (2 anc)
  show ?case by simp
next
  case (3 anc d sub rest)
  show ?case
  proof (cases "keep d")
    case True
    then have anc': "\<forall>x \<in> set (anc @ [d]). keep x" using "3.prems" by simp
    show ?thesis
    proof (cases sub)
      case None
      then show ?thesis using True "3.IH"(2) [OF "3.prems"] by simp
    next
      case (Some t)
      then show ?thesis
        using True "3.IH"(1) [OF Some anc'] "3.IH"(2) [OF "3.prems"] by simp
    qed
  next
    case False
    have "filter (\<lambda>node. \<forall>d \<in> set (fst node). keep d) (nodes_below (anc @ [d]) t) = []" for t
      by (rule nodes_below_cut [of d]) (use False in auto)
    then show ?thesis using False "3.IH"(2) [OF "3.prems"]
      by (simp split: option.splits)
  qed
qed

lemma count_files_proj: "count_files os_proj ''/home/dragon/trading'' = 2"
  by (simp add: count_files_def os_proj_def os_none_def walk_keep_def startswith_def)

text \<open>
  C3. For every tree \<open>os.walk\<close> sees below a directory, \<open>count_files\<close> is the number of
  files of the tree none of whose directories, between the top and the file, has an
  excluded name: no file under an excluded subdirectory is counted. The triples the walk
  yields are exactly the directories of the tree that are reached from the top through
  names that are not excluded, each under the path joined from those names: a directory
  with an excluded name on the way to it, the excluded directory included, is not
  visited. When the directory cannot be scanned the count is 0. For the directory holding
  \<open>.git/\<close>, \<open>a.txt\<close> and \<open>sub/b.txt\<close> the count is 2.
\<close>

theorem count_files_skips_excluded:
  "(walk_view os directory = Some t \<longrightarrow>
      count_files os directory =
        length (filter (\<lambda>(anc, f). \<forall>d \<in> set anc. \<not> excluded_dir d) (files_below [] t)) \<and>
      os_walk walk_keep directory t =
        map (\<lambda>(anc, dirs, files). (foldl path_join directory anc, dirs, files))
          (filter (\<lambda>(anc, dirs, files). \<forall>d \<in> set anc. \<not> excluded_dir d) (nodes_below [] t))) \<and>
   (walk_view os directory = None \<longrightarrow> count_files os directory = 0) \<and>
   walk_view os_proj ''/home/dragon/trading'' =
     Some (WDir [(''.git'', Some (WDir [] [''HEAD'', ''config''])),
                 (''sub'', Some (WDir [] [''b.txt'']))] [''a.txt'']) \<and>
   count_files os_proj ''/home/dragon/trading'' = 2"
proof -
  have a: "count_files os directory =
      length (filter (\<lambda>(anc, f). \<forall>d \<in> set anc. \<not> excluded_dir d) (files_below [] t))"
    if "walk_view os directory = Some t"
    using that walk_counts_unpruned_files(1) [of "[]" walk_keep directory t]
    by (simp add: count_files_def foldl_count walk_keep_excluded)
  have b: "os_walk walk_keep directory t =
        map (\<lambda>(anc, dirs, files). (foldl path_join directory anc, dirs, files))
          (filter (\<lambda>(anc, dirs, files). \<forall>d \<in> set anc. \<not> excluded_dir d) (nodes_below [] t))"
    using walk_yields_kept_nodes(1) [of "[]" walk_keep directory t]
    by (simp add: walk_keep_excluded split_def)
  have c: "walk_view os_proj ''/home/dragon/trading'' =
     Some (WDir [(''.git'', Some (WDir [] [''HEAD'', ''config''])),
                 (''sub'', Some (WDir [] [''b.txt'']))] [''a.txt''])"
    by (simp add: os_proj_def)
  have n: "count_files os directory = 0" if "walk_view os directory = None"
    using that by (simp add: count_files_def)
  show ?thesis using a b c n count_files_proj by blast
qed

theorem count_files_skips_excluded_witness:
  "walk_view os_proj ''/home/dragon/trading'' =
     Some (WDir [(''.git'', Some (WDir [] [''HEAD'', ''config''])),
                 (''sub'', Some (WDir [] [''b.txt'']))] [''a.txt'']) \<and>
   files_below [] (WDir [(''.git'', Some (WDir [] [''HEAD'', ''config''])),
                         (''sub'', Some (WDir [] [''b.txt'']))] [''a.txt'']) =
     [([], ''a.txt''), ([''.git''], ''HEAD''), ([''.git''], ''config''), ([''sub''], ''b.txt'')] \<and>
   nodes_below [] (WDir [(''.git'', Some (WDir [] [''HEAD'', ''config''])),
                         (''sub'', Some (WDir [] [''b.txt'']))] [''a.txt'']) =
     [([], [''.git'', ''sub''], [''a.txt'']), ([''.git''], [], [''HEAD'', ''config'']),
      ([''sub''], [], [''b.txt''])] \<and>
   excluded_dir ''.git'' \<and>
   count_files os_proj ''/home/dragon/trading'' = 2 \<and>
   os_walk walk_keep ''/home/dragon/trading''
      (WDir [(''.git'', Some (WDir [] [''HEAD'', ''config''])),
             (''sub'', Some (WDir [] [''b.txt'']))] [''a.txt'']) =
     [(''/home/dragon/trading'', [''.git'', ''sub''], [''a.txt'']),
      (''/home/dragon/trading/sub'', [], [''b.txt''])] \<and>
   walk_view os_none ''/home/dragon/trading'' = None \<and>
   count_files os_none ''/home/dragon/trading'' = 0"
proof -
  let ?T = "WDir [(''.git'', Some (WDir [] [''HEAD'', ''config''])),
                  (''sub'', Some (WDir [] [''b.txt'']))] [''a.txt'']"
  have w: "walk_view os_none ''/home/dragon/trading'' = None"
    by (simp add: os_none_def)
  have f: "files_below [] ?T =
     [([], ''a.txt''), ([''.git''], ''HEAD''), ([''.git''], ''config''), ([''sub''], ''b.txt'')]"
    by simp
  have g: "nodes_below [] ?T =
     [([], [''.git'', ''sub''], [''a.txt'']), ([''.git''], [], [''HEAD'', ''config'']),
      ([''sub''], [], [''b.txt''])]"
    by simp
  have e: "excluded_dir ''.git'' \<and> \<not> excluded_dir ''sub''"
    by (simp add: excluded_dir_def startswith_def)
  have j: "path_join ''/home/dragon/trading'' ''sub'' = ''/home/dragon/trading/sub''"
    by (simp add: startswith_def endswith_def path_join_def suffix_to_prefix)
  note t = count_files_skips_excluded [of os_proj "''/home/dragon/trading''" ?T]
  have p: "walk_view os_proj ''/home/dragon/trading'' = Some ?T \<and>
           count_files os_proj ''/home/dragon/trading'' = 2"
    using t by blast
  have v: "os_walk walk_keep ''/home/dragon/trading'' ?T =
     [(''/home/dragon/trading'', [''.git'', ''sub''], [''a.txt'']),
      (''/home/dragon/trading/sub'', [], [''b.txt''])]"
  proof -
    from t p have "os_walk walk_keep ''/home/dragon/trading'' ?T =
        map (\<lambda>(anc, dirs, files). (foldl path_join ''/home/dragon/trading'' anc, dirs, files))
          (filter (\<lambda>(anc, dirs, files). \<forall>d \<in> set anc. \<not> excluded_dir d) (nodes_below [] ?T))"
      by blast
    then show ?thesis unfolding g using e by (simp add: j)
  qed
  have n: "count_files os_none ''/home/dragon/trading'' = 0"
    using count_files_skips_excluded [of os_none "''/home/dragon/trading''" ?T] w by blast
  show ?thesis using w f g e p v n by blast
qed

section \<open>The project list\<close>

lemma foldl_append_when:
  "foldl (\<lambda>acc (n, d). if P n then acc @ [f n d] else acc) acc xs =
     acc @ map (\<lambda>(n, d). f n d) (filter (\<lambda>(n, d). P n) xs)"
  by (induction xs arbitrary: acc) auto

lemma filter_fst: "map fst (filter (\<lambda>(n, d). P n) xs) = filter P (map fst xs)"
  by (induction xs) auto

lemma get_projects_eq:
  "get_projects os =
     map (\<lambda>(dir_name, description). JObj [
            (''name'', JStr dir_name),
            (''description'', JStr description),
            (''type'', JStr ''project''),
            (''path'', JStr dir_name),
            (''files_count'', JInt (int (count_files os (path_join PROJECT_ROOT dir_name)))),
            (''last_modified'', JStr (get_last_modified os (path_join PROJECT_ROOT dir_name))),
            (''status'', JStr (get_project_status os (path_join PROJECT_ROOT dir_name)))])
       (filter (\<lambda>(n, d). path_exists os (path_join PROJECT_ROOT n)) main_projects) @
     map (\<lambda>(dir_name, description). JObj [
            (''name'', JStr dir_name),
            (''description'', JStr description),
            (''type'', JStr ''tooling''),
            (''path'', JStr dir_name),
            (''files_count'', JInt (int (count_files os (path_join PROJECT_ROOT dir_name)))),
            (''last_modified'', JStr (get_last_modified os (path_join PROJECT_ROOT dir_name))),
            (''status'', JStr ''active'')])
       (filter (\<lambda>(n, d). path_exists os (path_join PROJECT_ROOT n)) tooling_areas)"
  unfolding get_projects_def Let_def foldl_append_when by simp

lemma names_of_entries:
  "map item_name (map (\<lambda>(n, d). JObj ((''name'', JStr n) # rest n d)) xs) = map fst xs"
  by (induction xs) (auto simp: item_name_def)

lemma types_of_entries:
  "map (\<lambda>e. item_get e ''type'')
       (map (\<lambda>(n, d). JObj ((''name'', a n d) # (''description'', b n d) # (''type'', JStr ty) # rest n d)) xs)
     = replicate (length xs) (Some (JStr ty))"
  by (induction xs) auto

lemma count_files_dashboard: "count_files os_proj ''/home/dragon/project-dashboard'' = 1"
  by (simp add: count_files_def os_proj_def os_none_def)

lemma last_modified_proj:
  "get_last_modified os_proj ''/home/dragon/trading'' = ''2024-05-01 12:00''"
  "get_last_modified os_proj ''/home/dragon/project-dashboard'' = ''2024-05-01 12:00''"
  by (simp_all add: get_last_modified_def os_proj_def os_none_def walk_keep_def startswith_def
      endswith_def path_join_def suffix_to_prefix Let_def)

lemma exists_proj:
  "filter (\<lambda>(n, d). path_exists os_proj (path_join PROJECT_ROOT n)) main_projects =
     [(''trading'', ''Freqtrade Trading Bot and Strategies'')]"
  "filter (\<lambda>(n, d). path_exists os_proj (path_join PROJECT_ROOT n)) tooling_areas =
     [(''project-dashboard'', ''Project Dashboard (This App)'')]"
  by (simp_all add: main_projects_def tooling_areas_def os_proj_def os_none_def PROJECT_ROOT_def
      startswith_def endswith_def path_join_def suffix_to_prefix)

lemma join_proj:
  "path_join PROJECT_ROOT ''trading'' = ''/home/dragon/trading''"
  "path_join PROJECT_ROOT ''project-dashboard'' = ''/home/dragon/project-dashboard''"
  by (simp_all add: PROJECT_ROOT_def startswith_def endswith_def path_join_def suffix_to_prefix)

lemma get_projects_os_proj:
  "get_projects os_proj =
     [JObj [(''name'', JStr ''trading''),
            (''description'', JStr ''Freqtrade Trading Bot and Strategies''),
            (''type'', JStr ''project''),
            (''path'', JStr ''trading''),
            (''files_count'', JInt 2),
            (''last_modified'', JStr ''2024-05-01 12:00''),
            (''status'', JStr ''active'')],
      JObj [(''name'', JStr ''project-dashboard''),
            (''description'', JStr ''Project Dashboard (This App)''),
            (''type'', JStr ''tooling''),
            (''path'', JStr ''project-dashboard''),
            (''files_count'', JInt 1),
            (''last_modified'', JStr ''2024-05-01 12:00''),
            (''status'', JStr ''active'')]]"
  unfolding get_projects_eq exists_proj
  by (simp add: join_proj count_files_proj count_files_dashboard last_modified_proj
      get_project_status_def)

text \<open>
  C7. The names of the entries \<open>get_projects\<close> returns are the configured project names
  whose directory exists under the root, in configured order, followed by the configured
  tooling names whose directory exists, in configured order; the first group has type
  \<open>project\<close>, the second \<open>tooling\<close>. A name whose directory is missing gives no entry:
  on the machine holding only \<open>trading\<close> and \<open>project-dashboard\<close> those two are listed, and
  on the empty machine the result is the empty list.
\<close>

theorem get_projects_existing_in_order:
  "map item_name (get_projects os) =
     filter (\<lambda>n. path_exists os (path_join PROJECT_ROOT n)) (map fst main_projects) @
     filter (\<lambda>n. path_exists os (path_join PROJECT_ROOT n)) (map fst tooling_areas) \<and>
   map (\<lambda>e. item_get e ''type'') (get_projects os) =
     replicate (length (filter (\<lambda>n. path_exists os (path_join PROJECT_ROOT n)) (map fst main_projects)))
       (Some (JStr ''project'')) @
     replicate (length (filter (\<lambda>n. path_exists os (path_join PROJECT_ROOT n)) (map fst tooling_areas)))
       (Some (JStr ''tooling'')) \<and>
   map item_name (get_projects os_proj) = [''trading'', ''project-dashboard''] \<and>
   get_projects os_none = []"
proof -
  have len: "length (filter P (map fst xs)) = length (filter (\<lambda>(n, d). P n) xs)"
    for P :: "string \<Rightarrow> bool" and xs :: "(string \<times> string) list"
    by (simp add: filter_fst [symmetric])
  have general: "map item_name (get_projects os) =
     filter (\<lambda>n. path_exists os (path_join PROJECT_ROOT n)) (map fst main_projects) @
     filter (\<lambda>n. path_exists os (path_join PROJECT_ROOT n)) (map fst tooling_areas) \<and>
   map (\<lambda>e. item_get e ''type'') (get_projects os) =
     replicate (length (filter (\<lambda>n. path_exists os (path_join PROJECT_ROOT n)) (map fst main_projects)))
       (Some (JStr ''project'')) @
     replicate (length (filter (\<lambda>n. path_exists os (path_join PROJECT_ROOT n)) (map fst tooling_areas)))
       (Some (JStr ''tooling''))"
    unfolding get_projects_eq map_append names_of_entries types_of_entries filter_fst len
    by simp
  have proj: "map item_name (get_projects os_proj) = [''trading'', ''project-dashboard'']"
    by (simp add: get_projects_os_proj item_name_def)
  have none: "get_projects os_none = []"
    unfolding get_projects_eq by (simp add: os_none_def)
  show ?thesis using general proj none by blast
qed

section \<open>Hidden files\<close>

lemma listing_names_not_hidden:
  assumes "fst (api_browse os p) = (body, 200)" and "it \<in> set (body_items body)"
  shows "\<not> browse_hidden (item_name it)"
proof -
  let ?t = "if p \<noteq> [] then path_join PROJECT_ROOT p else PROJECT_ROOT"
  from api_browse_listing [OF assms(1)] obtain new names where
    body: "item_get body ''items'' = Some (JList (
       filter (\<lambda>item. item_get item ''type'' = Some (JStr ''directory'')) new @
       filter (\<lambda>item. item_get item ''type'' = Some (JStr ''file'')) new))" and
    names: "map item_name new = filter (listed os ?t) (sort names)"
    by blast
  from body assms(2) have "it \<in> set new" by (auto simp: body_items_def)
  then have "item_name it \<in> set (map item_name new)" by simp
  then have "listed os ?t (item_name it)" unfolding names by simp
  then show ?thesis by (simp add: listed_def)
qed

lemma browse_dashboard:
  "fst (api_browse os_proj ''project-dashboard'') =
     (JObj [(''current_path'', JStr ''project-dashboard''),
            (''items'', JList []),
            (''parent_path'', JStr [])], 200)"
  by (simp add: api_browse_def browse_listing_def os_proj_def os_none_def Let_def str_in_def
      startswith_def endswith_def path_join_def PROJECT_ROOT_def sublist_Cons_right
      suffix_to_prefix browse_hidden_def dirname_def rfind_sep_plus1_def rstrip_sep_def)

text \<open>
  C10. \<open>count_files\<close> adds the number of all the names \<open>os.walk\<close> reports as files in
  every directory it visits, whatever the names, so the files whose name starts with a dot
  are counted; \<open>api_browse\<close> never lists an entry whose name starts with a dot. For the
  directory \<open>project-dashboard\<close> holding only \<open>.env\<close> the count is 1 and the listing is
  empty.
\<close>

theorem hidden_files_counted_but_not_listed:
  "(walk_view os directory = Some t \<longrightarrow>
      count_files os directory =
        sum_list (map (\<lambda>(dirpath, dirs, files). length files) (os_walk walk_keep directory t))) \<and>
   (walk_view os directory = Some (WDir dirs files) \<longrightarrow>
      length (filter (\<lambda>f. startswith f ''.'') files) \<le> count_files os directory) \<and>
   (fst (api_browse os p) = (body, 200) \<longrightarrow>
      (\<forall>it \<in> set (body_items body). \<not> startswith (item_name it) ''.'')) \<and>
   walk_view os_proj ''/home/dragon/project-dashboard'' = Some (WDir [] [''.env'']) \<and>
   count_files os_proj ''/home/dragon/project-dashboard'' = 1 \<and>
   fst (api_browse os_proj ''project-dashboard'') =
     (JObj [(''current_path'', JStr ''project-dashboard''),
            (''items'', JList []),
            (''parent_path'', JStr [])], 200)"
proof -
  have a: "count_files os directory =
        sum_list (map (\<lambda>(dirpath, dirs, files). length files) (os_walk walk_keep directory t))"
    if "walk_view os directory = Some t" for t
    using that by (simp add: count_files_def foldl_count)
  have b: "length (filter (\<lambda>f. startswith f ''.'') files) \<le> count_files os directory"
    if "walk_view os directory = Some (WDir dirs files)"
  proof -
    have "length (filter (\<lambda>f. startswith f ''.'') files) \<le> length files" by simp
    also have "\<dots> \<le> count_files os directory" using a [OF that] by simp
    finally show ?thesis .
  qed
  have c: "\<not> startswith (item_name it) ''.''"
    if "fst (api_browse os p) = (body, 200)" "it \<in> set (body_items body)" for it
    using listing_names_not_hidden [OF that] by (simp add: browse_hidden_def)
  have d: "walk_view os_proj ''/home/dragon/project-dashboard'' = Some (WDir [] [''.env''])"
    by (simp add: os_proj_def)
  show ?thesis
    using a b c d count_files_dashboard browse_dashboard by blast
qed

theorem hidden_files_counted_but_not_listed_witness:
  "walk_view os_proj ''/home/dragon/project-dashboard'' = Some (WDir [] [''.env'']) \<and>
   startswith ''.env'' ''.'' \<and>
   count_files os_proj ''/home/dragon/project-dashboard'' = 1 \<and>
   length (filter (\<lambda>f. startswith f ''.'') [''.env'']) \<le> count_files os_proj ''/home/dragon/project-dashboard'' \<and>
   fst (api_browse os_proj ''project-dashboard'') =
     (JObj [(''current_path'', JStr ''project-dashboard''),
            (''items'', JList []),
            (''parent_path'', JStr [])], 200) \<and>
   body_items (JObj [(''current_path'', JStr ''project-dashboard''),
            (''items'', JList []),
            (''parent_path'', JStr [])]) = [] \<and>
   length (body_items (JObj [(''current_path'', JStr ''project-dashboard''),
            (''items'', JList []),
            (''parent_path'', JStr [])])) < count_files os_proj ''/home/dragon/project-dashboard''"
proof -
  note t = hidden_files_counted_but_not_listed
             [of os_proj "''/home/dragon/project-dashboard''" "WDir [] [''.env'']" "[]" "[''.env'']"
                 "''project-dashboard''"
                 "JObj [(''current_path'', JStr ''project-dashboard''),
                        (''items'', JList []), (''parent_path'', JStr [])]"]
  have s: "startswith ''.env'' ''.''" by (simp add: startswith_def)
  have l: "length (body_items (JObj [(''current_path'', JStr ''project-dashboard''),
            (''items'', JList []),
            (''parent_path'', JStr [])])) = 0" by (simp add: body_items_def)
  from t have c: "count_files os_proj ''/home/dragon/project-dashboard'' = 1" by blast
  show ?thesis using t s l c by (simp add: body_items_def)
qed

end
